theory Spec2Isabelle
  imports Main "HOL-Library.Word"
begin

unbundle bit_operations_syntax

section \<open>Undo record pointers (undolog.h)\<close>

text \<open>
  The C types of \<^verbatim>\<open>undolog.h\<close>: \<^verbatim>\<open>UndoRecPtr\<close> and \<^verbatim>\<open>UndoLogOffset\<close> are
  \<^verbatim>\<open>uint64\<close>, \<^verbatim>\<open>UndoRecordSize\<close> is \<^verbatim>\<open>uint16\<close>. \<^verbatim>\<open>UndoLogNumber\<close> is a C
  \<^verbatim>\<open>int\<close>; it is kept as a mathematical integer, and the cast \<^verbatim>\<open>(uint64) (logno)\<close> of
  \<^verbatim>\<open>MakeUndoRecPtr\<close> is the C conversion to an unsigned type, \<open>word_of_int\<close> (the value
  modulo \<open>2 ^ 64\<close>).
\<close>

type_synonym uint8 = "8 word"
type_synonym uint16 = "16 word"
type_synonym uint32 = "32 word"
type_synonym uint64 = "64 word"

type_synonym UndoRecPtr = uint64
type_synonym UndoRecordSize = uint16
type_synonym UndoLogOffset = uint64
type_synonym UndoLogNumber = int

definition UndoLogNumberBits :: nat where
  "UndoLogNumberBits = 24"

definition UndoLogOffsetBits :: nat where
  "UndoLogOffsetBits = 64 - UndoLogNumberBits"

definition InvalidUndoRecPtr :: UndoRecPtr where
  "InvalidUndoRecPtr = 0"

definition SpecialUndoRecPtr :: UndoRecPtr where
  "SpecialUndoRecPtr = 0xFFFFFFFFFFFFFFFF"

definition UndoLogMaxSize :: UndoLogOffset where
  "UndoLogMaxSize = push_bit UndoLogOffsetBits 1"

definition UndoRecPtrGetLogNo :: "UndoRecPtr \<Rightarrow> uint64" where
  "UndoRecPtrGetLogNo urp = drop_bit UndoLogOffsetBits urp"

definition UndoRecPtrGetOffset :: "UndoRecPtr \<Rightarrow> UndoLogOffset" where
  "UndoRecPtrGetOffset urp = urp AND (push_bit UndoLogOffsetBits 1 - 1)"

definition MakeUndoRecPtr :: "UndoLogNumber \<Rightarrow> UndoLogOffset \<Rightarrow> UndoRecPtr" where
  "MakeUndoRecPtr logno offset = push_bit UndoLogOffsetBits (word_of_int logno) OR offset"

definition UndoRecPtrIsValid :: "UndoRecPtr \<Rightarrow> bool" where
  "UndoRecPtrIsValid undoRecPtr = (undoRecPtr \<noteq> InvalidUndoRecPtr)"

subsection \<open>Packing and unpacking\<close>

lemma word_less_take_bit: "(x::'a::len word) < 2 ^ n \<Longrightarrow> take_bit n x = x"
  by (simp add: take_bit_eq_mask less_mask_eq)

lemma word_less_bit_bound:
  assumes "(x::'a::len word) < 2 ^ n" and "bit x k"
  shows "k < n"
proof -
  have "bit (take_bit n x) k" using assms by (simp add: word_less_take_bit)
  then show ?thesis by (simp add: bit_take_bit_iff)
qed

lemma logno_word_less:
  assumes "0 \<le> L" "L < 2 ^ 24"
  shows "(word_of_int L :: uint64) < 2 ^ 24" and "uint (word_of_int L :: uint64) = L"
proof -
  have "L < 2 ^ 64" using assms(2) by simp
  then show u: "uint (word_of_int L :: uint64) = L"
    using assms(1) by (simp add: uint_word_of_int take_bit_int_eq_self)
  show "(word_of_int L :: uint64) < 2 ^ 24"
    using assms(2) u by (simp add: word_less_alt)
qed

lemma offset_mask: "push_bit UndoLogOffsetBits (1::uint64) - 1 = mask 40"
  by (simp add: UndoLogOffsetBits_def UndoLogNumberBits_def mask_eq_exp_minus_1)

lemma drop_bit_packed:
  assumes "(l::uint64) < 2 ^ 24" "(off::uint64) < 2 ^ 40"
  shows "drop_bit 40 (push_bit 40 l OR off) = l"
proof (rule bit_word_eqI)
  fix n assume "n < LENGTH(64)"
  have "\<not> bit off (40 + n)"
    using word_less_bit_bound [OF assms(2), of "40 + n"] by auto
  moreover have "bit l n \<longrightarrow> n < 24"
    using word_less_bit_bound [OF assms(1), of n] by blast
  ultimately show "bit (drop_bit 40 (push_bit 40 l OR off)) n = bit l n"
    by (auto simp add: bit_drop_bit_eq bit_or_iff bit_push_bit_iff dest: bit_imp_le_length)
qed

lemma mask_packed:
  assumes "(off::uint64) < 2 ^ 40"
  shows "(push_bit 40 l OR off) AND mask 40 = off"
proof (rule bit_word_eqI)
  fix n assume "n < LENGTH(64)"
  have "bit off n \<longrightarrow> n < 40"
    using word_less_bit_bound [OF assms, of n] by blast
  then show "bit ((push_bit 40 l OR off) AND mask 40) n = bit off n"
    by (auto simp add: bit_and_iff bit_or_iff bit_push_bit_iff bit_mask_iff)
qed

lemma GetLogNo_Make:
  assumes "0 \<le> L" "L < 2 ^ 24" "off < 2 ^ 40"
  shows "uint (UndoRecPtrGetLogNo (MakeUndoRecPtr L off)) = L"
  using drop_bit_packed [OF logno_word_less(1) [OF assms(1,2)] assms(3)]
    logno_word_less(2) [OF assms(1,2)]
  by (simp add: UndoRecPtrGetLogNo_def MakeUndoRecPtr_def UndoLogOffsetBits_def
      UndoLogNumberBits_def)

lemma GetOffset_Make:
  assumes "off < 2 ^ 40"
  shows "UndoRecPtrGetOffset (MakeUndoRecPtr L off) = off"
  using mask_packed [OF assms]
  by (simp only: UndoRecPtrGetOffset_def MakeUndoRecPtr_def offset_mask)
    (simp add: UndoLogOffsetBits_def UndoLogNumberBits_def del: mask_numeral)

text \<open>
  Claim C4 (address law). For every log number \<open>L\<close> with \<open>0 \<le> L < 2 ^ 24\<close> and
  every offset \<open>off < 2 ^ 40\<close>, unpacking the pointer built by \<open>MakeUndoRecPtr L off\<close>
  gives back the log number \<open>L\<close> and the offset \<open>off\<close>.
\<close>

theorem address_law:
  assumes "0 \<le> L" and "L < 2 ^ 24" and "off < 2 ^ 40"
  shows "uint (UndoRecPtrGetLogNo (MakeUndoRecPtr L off)) = L
       \<and> UndoRecPtrGetOffset (MakeUndoRecPtr L off) = off"
  using GetLogNo_Make [OF assms] GetOffset_Make [OF assms(3)] by simp

theorem address_law_witness:
  "(0::int) \<le> 5 \<and> (5::int) < 2 ^ 24 \<and> (100::uint64) < 2 ^ 40
   \<and> uint (UndoRecPtrGetLogNo (MakeUndoRecPtr 5 100)) = 5
   \<and> UndoRecPtrGetOffset (MakeUndoRecPtr 5 100) = 100"
proof -
  have a: "(0::int) \<le> 5" and b: "(5::int) < 2 ^ 24" and c: "(100::uint64) < 2 ^ 40"
    by simp_all
  from address_law [OF a b c] a b c show ?thesis by simp
qed

text \<open>
  Claim C9 (sentinels). The two sentinels are the extreme points of the packed address
  space: \<open>MakeUndoRecPtr 0 0\<close> is \<open>InvalidUndoRecPtr\<close>, and the highest addressable pair
  \<open>(2 ^ 24 - 1, 2 ^ 40 - 1)\<close> packs to \<open>SpecialUndoRecPtr\<close>; among the pointers packed
  from an in-range pair, \<open>UndoRecPtrIsValid\<close> is false for \<open>(0, 0)\<close> only.
\<close>

theorem sentinels_extreme:
  "MakeUndoRecPtr 0 0 = InvalidUndoRecPtr
   \<and> MakeUndoRecPtr (2 ^ 24 - 1) (2 ^ 40 - 1) = SpecialUndoRecPtr
   \<and> (\<forall>L off. 0 \<le> L \<and> L < 2 ^ 24 \<and> off < 2 ^ 40 \<longrightarrow>
        (\<not> UndoRecPtrIsValid (MakeUndoRecPtr L off) \<longleftrightarrow> L = 0 \<and> off = 0))"
proof (intro conjI allI impI)
  show "MakeUndoRecPtr 0 0 = InvalidUndoRecPtr"
    by (simp add: InvalidUndoRecPtr_def MakeUndoRecPtr_def)
  show "MakeUndoRecPtr (2 ^ 24 - 1) (2 ^ 40 - 1) = SpecialUndoRecPtr"
    by (simp add: SpecialUndoRecPtr_def MakeUndoRecPtr_def UndoLogOffsetBits_def
        UndoLogNumberBits_def)
next
  fix L :: int and off :: uint64
  assume r: "0 \<le> L \<and> L < 2 ^ 24 \<and> off < 2 ^ 40"
  show "\<not> UndoRecPtrIsValid (MakeUndoRecPtr L off) \<longleftrightarrow> L = 0 \<and> off = 0"
  proof
    assume "\<not> UndoRecPtrIsValid (MakeUndoRecPtr L off)"
    then have z: "MakeUndoRecPtr L off = 0"
      by (simp add: UndoRecPtrIsValid_def InvalidUndoRecPtr_def)
    have "uint (UndoRecPtrGetLogNo (MakeUndoRecPtr L off)) = L"
      and "UndoRecPtrGetOffset (MakeUndoRecPtr L off) = off"
      using r GetLogNo_Make GetOffset_Make by blast+
    then show "L = 0 \<and> off = 0"
      unfolding z by (simp add: UndoRecPtrGetLogNo_def UndoRecPtrGetOffset_def)
  next
    assume "L = 0 \<and> off = 0"
    then show "\<not> UndoRecPtrIsValid (MakeUndoRecPtr L off)"
      by (simp add: UndoRecPtrIsValid_def InvalidUndoRecPtr_def MakeUndoRecPtr_def)
  qed
qed

theorem sentinels_extreme_witness:
  "MakeUndoRecPtr 0 0 = InvalidUndoRecPtr
   \<and> MakeUndoRecPtr (2 ^ 24 - 1) (2 ^ 40 - 1) = SpecialUndoRecPtr
   \<and> UndoRecPtrIsValid (MakeUndoRecPtr 0 1)
   \<and> UndoRecPtrIsValid (MakeUndoRecPtr 1 0)
   \<and> \<not> UndoRecPtrIsValid (MakeUndoRecPtr 0 0)"
proof -
  note t = sentinels_extreme
  from t have q: "\<And>L off. 0 \<le> L \<and> L < 2 ^ 24 \<and> off < 2 ^ 40 \<Longrightarrow>
      (\<not> UndoRecPtrIsValid (MakeUndoRecPtr L off)) = (L = 0 \<and> off = 0)"
    by blast
  have "UndoRecPtrIsValid (MakeUndoRecPtr 0 1)" using q [of 0 1] by simp
  moreover have "UndoRecPtrIsValid (MakeUndoRecPtr 1 0)" using q [of 1 0] by simp
  moreover have "\<not> UndoRecPtrIsValid (MakeUndoRecPtr 0 0)" using q [of 0 0] by simp
  ultimately show ?thesis using t by blast
qed

section \<open>Undo log metadata (undolog.h)\<close>

text \<open>
  \<^verbatim>\<open>Oid\<close> and \<^verbatim>\<open>TransactionId\<close> are 32-bit unsigned integers and \<^verbatim>\<open>size_t\<close> is the
  64-bit unsigned size type of the platform. \<^verbatim>\<open>BLCKSZ\<close> is a build-time constant that
  the two headers do not define: it is a parameter wherever it is used.
  The fields \<^verbatim>\<open>insert\<close> and \<^verbatim>\<open>end\<close> of \<^verbatim>\<open>UndoLogMetaData\<close> are named \<open>insert_off\<close>
  and \<open>end_off\<close> here.
\<close>

type_synonym Oid = uint32
type_synonym TransactionId = uint32
type_synonym size_t = uint64

datatype UndoPersistence = UNDO_PERSISTENT | UNDO_UNLOGGED | UNDO_TEMP

definition UNDOSEG_SIZE :: nat where
  "UNDOSEG_SIZE = 512"

definition UndoLogSegmentSize :: "nat \<Rightarrow> nat" where
  "UndoLogSegmentSize BLCKSZ = BLCKSZ * UNDOSEG_SIZE"

record UndoLogMetaData =
  tablespace :: Oid
  insert_off :: UndoLogOffset
  end_off :: UndoLogOffset
  discard :: UndoLogOffset
  last_xact_start :: UndoLogOffset
  is_first_rec :: bool
  xid :: TransactionId
  prevlen :: uint16

lemma MaxSize_unat: "unat UndoLogMaxSize = 2 ^ 40"
  by (simp add: UndoLogMaxSize_def UndoLogOffsetBits_def UndoLogNumberBits_def)

section \<open>Undo record structures (undorecord.h)\<close>

text \<open>
  The typedefs \<^verbatim>\<open>CommandId\<close>, \<^verbatim>\<open>BlockNumber\<close> (32 bits) and \<^verbatim>\<open>OffsetNumber\<close> (16 bits)
  come from headers outside the repository. \<^verbatim>\<open>ForkNumber\<close> is an enumeration and
  \<^verbatim>\<open>Buffer\<close> a C \<^verbatim>\<open>int\<close>: both are kept as mathematical integers. A \<^verbatim>\<open>StringInfoData\<close>
  is the list of its \<^verbatim>\<open>len\<close> data bytes.
\<close>

type_synonym byte = uint8
type_synonym CommandId = uint32
type_synonym BlockNumber = uint32
type_synonym OffsetNumber = uint16
type_synonym ForkNumber = int
type_synonym Buffer = int
type_synonym Page = "byte list"

datatype undorectype =
    UNDO_INSERT
  | UNDO_MULTI_INSERT
  | UNDO_DELETE
  | UNDO_INPLACE_UPDATE
  | UNDO_UPDATE
  | UNDO_XID_LOCK_ONLY
  | UNDO_INVALID_XACT_SLOT

fun undorectype_code :: "undorectype \<Rightarrow> uint8" where
  "undorectype_code UNDO_INSERT = 0"
| "undorectype_code UNDO_MULTI_INSERT = 1"
| "undorectype_code UNDO_DELETE = 2"
| "undorectype_code UNDO_INPLACE_UPDATE = 3"
| "undorectype_code UNDO_UPDATE = 4"
| "undorectype_code UNDO_XID_LOCK_ONLY = 5"
| "undorectype_code UNDO_INVALID_XACT_SLOT = 6"

record UndoRecordHeader =
  urec_type :: uint8
  urec_info :: uint8
  urec_prevlen :: uint16
  urec_relfilenode :: Oid
  urec_prevxid :: TransactionId
  urec_xid :: TransactionId
  urec_cid :: CommandId

definition UREC_INFO_RELATION_DETAILS :: uint8 where "UREC_INFO_RELATION_DETAILS = 0x01"
definition UREC_INFO_BLOCK :: uint8 where "UREC_INFO_BLOCK = 0x02"
definition UREC_INFO_PAYLOAD :: uint8 where "UREC_INFO_PAYLOAD = 0x04"
definition UREC_INFO_TRANSACTION :: uint8 where "UREC_INFO_TRANSACTION = 0x08"

record UndoRecordRelationDetails =
  urec_tsid :: Oid
  urec_fork :: ForkNumber

record UndoRecordBlock =
  urec_blkprev :: uint64
  urec_block :: BlockNumber
  urec_offset :: OffsetNumber

record UndoRecordTransaction =
  urec_xidepoch :: uint32
  urec_next :: uint64

record UndoRecordPayload =
  urec_payload_len :: uint16
  urec_tuple_len :: uint16

record UnpackedUndoRecord =
  uur_type :: uint8
  uur_info :: uint8
  uur_prevlen :: uint16
  uur_relfilenode :: Oid
  uur_prevxid :: TransactionId
  uur_xid :: TransactionId
  uur_cid :: CommandId
  uur_tsid :: Oid
  uur_fork :: ForkNumber
  uur_blkprev :: uint64
  uur_block :: BlockNumber
  uur_offset :: OffsetNumber
  uur_buffer :: Buffer
  uur_xidepoch :: uint32
  uur_next :: uint64
  uur_payload :: "byte list"
  uur_tuple :: "byte list"

subsection \<open>Structure layout and the \<^verbatim>\<open>SizeOf\<close> macros\<close>

text \<open>
  The \<^verbatim>\<open>SizeOf...\<close> macros are \<^verbatim>\<open>offsetof (last member) + sizeof (last member)\<close>.
  What \<^verbatim>\<open>offsetof\<close> yields is fixed by the C implementation: every member is placed at
  the lowest offset that is not below the end of the previous member and is a multiple
  of the member's alignment. Integer types of 1, 2 and 4 bytes and enumerations are
  aligned to their size on every platform PostgreSQL supports; the alignment of \<^verbatim>\<open>uint64\<close>
  is 8 on the common 64-bit ABIs and 4 on some 32-bit ones, and is the parameter \<open>a64\<close>.
\<close>

datatype ctype = c_uint8 | c_uint16 | c_uint32 | c_uint64 | c_enum

fun sizeof :: "ctype \<Rightarrow> nat" where
  "sizeof c_uint8 = 1"
| "sizeof c_uint16 = 2"
| "sizeof c_uint32 = 4"
| "sizeof c_uint64 = 8"
| "sizeof c_enum = 4"

fun alignof :: "nat \<Rightarrow> ctype \<Rightarrow> nat" where
  "alignof a64 c_uint64 = a64"
| "alignof a64 t = sizeof t"

definition align_up :: "nat \<Rightarrow> nat \<Rightarrow> nat" where
  "align_up a n = (if n mod a = 0 then n else n + (a - n mod a))"

fun member_offsets :: "nat \<Rightarrow> nat \<Rightarrow> ctype list \<Rightarrow> nat list" where
  "member_offsets a64 pos [] = []"
| "member_offsets a64 pos (t # ts) =
     align_up (alignof a64 t) pos # member_offsets a64 (align_up (alignof a64 t) pos + sizeof t) ts"

definition offsetof :: "nat \<Rightarrow> ctype list \<Rightarrow> nat \<Rightarrow> nat" where
  "offsetof a64 members i = member_offsets a64 0 members ! i"

abbreviation (input) "c_Oid \<equiv> c_uint32"
abbreviation (input) "c_TransactionId \<equiv> c_uint32"
abbreviation (input) "c_CommandId \<equiv> c_uint32"
abbreviation (input) "c_BlockNumber \<equiv> c_uint32"
abbreviation (input) "c_OffsetNumber \<equiv> c_uint16"
abbreviation (input) "c_ForkNumber \<equiv> c_enum"

definition UndoRecordHeader_members :: "ctype list" where
  "UndoRecordHeader_members =
     [c_uint8, c_uint8, c_uint16, c_Oid, c_TransactionId, c_TransactionId, c_CommandId]"

definition UndoRecordRelationDetails_members :: "ctype list" where
  "UndoRecordRelationDetails_members = [c_Oid, c_ForkNumber]"

definition UndoRecordBlock_members :: "ctype list" where
  "UndoRecordBlock_members = [c_uint64, c_BlockNumber, c_OffsetNumber]"

definition UndoRecordTransaction_members :: "ctype list" where
  "UndoRecordTransaction_members = [c_uint32, c_uint64]"

definition UndoRecordPayload_members :: "ctype list" where
  "UndoRecordPayload_members = [c_uint16, c_uint16]"

definition SizeOfUndoRecordHeader :: "nat \<Rightarrow> nat" where
  "SizeOfUndoRecordHeader a64 = offsetof a64 UndoRecordHeader_members 6 + sizeof c_CommandId"

definition SizeOfUndoRecordRelationDetails :: "nat \<Rightarrow> nat" where
  "SizeOfUndoRecordRelationDetails a64 =
     offsetof a64 UndoRecordRelationDetails_members 1 + sizeof c_uint8"

definition SizeOfUndoRecordBlock :: "nat \<Rightarrow> nat" where
  "SizeOfUndoRecordBlock a64 = offsetof a64 UndoRecordBlock_members 2 + sizeof c_OffsetNumber"

definition SizeOfUndoRecordTransaction :: "nat \<Rightarrow> nat" where
  "SizeOfUndoRecordTransaction a64 =
     offsetof a64 UndoRecordTransaction_members 1 + sizeof c_uint64"

definition SizeOfUndoRecordPayload :: "nat \<Rightarrow> nat" where
  "SizeOfUndoRecordPayload a64 = offsetof a64 UndoRecordPayload_members 1 + sizeof c_uint16"

lemmas layout_defs = offsetof_def align_up_def UndoRecordHeader_members_def
  UndoRecordRelationDetails_members_def UndoRecordBlock_members_def
  UndoRecordTransaction_members_def UndoRecordPayload_members_def

lemma SizeOfUndoRecordHeader_eq: "SizeOfUndoRecordHeader a64 = 20"
  by (simp add: SizeOfUndoRecordHeader_def layout_defs)

lemma SizeOfUndoRecordRelationDetails_eq: "SizeOfUndoRecordRelationDetails a64 = 5"
  by (simp add: SizeOfUndoRecordRelationDetails_def layout_defs)

lemma SizeOfUndoRecordBlock_eq: "SizeOfUndoRecordBlock a64 = 14"
  by (simp add: SizeOfUndoRecordBlock_def layout_defs)

lemma SizeOfUndoRecordPayload_eq: "SizeOfUndoRecordPayload a64 = 4"
  by (simp add: SizeOfUndoRecordPayload_def layout_defs)

lemma SizeOfUndoRecordTransaction_eq: "SizeOfUndoRecordTransaction a64 = align_up a64 4 + 8"
  by (simp add: SizeOfUndoRecordTransaction_def layout_defs)

lemma align_up_4: "0 < a \<Longrightarrow> align_up a 4 = 4 \<longleftrightarrow> a dvd 4"
proof -
  assume a: "0 < a"
  have "4 mod a < a" using a by simp
  then have "4 mod a \<noteq> 0 \<Longrightarrow> 4 + (a - 4 mod a) \<noteq> 4" by simp
  then show ?thesis by (auto simp: align_up_def mod_eq_0_iff_dvd)
qed

text \<open>
  Claim C2 (size of the Transaction section), as amended. \<open>SizeOfUndoRecordTransaction\<close>
  is \<^verbatim>\<open>offsetof (UndoRecordTransaction, urec_next) + sizeof (uint64)\<close>. It equals 12 (4
  bytes of xid epoch and 8 bytes of next-transaction pointer) exactly when the alignment
  of \<^verbatim>\<open>uint64\<close> divides 4; with the 8-byte alignment of the common 64-bit ABIs
  \<^verbatim>\<open>urec_next\<close> lies at offset 8 and the macro is 16.
\<close>

theorem transaction_size:
  "(0 < a64 \<longrightarrow> (SizeOfUndoRecordTransaction a64 = 12 \<longleftrightarrow> a64 dvd 4))
   \<and> SizeOfUndoRecordTransaction 4 = 12
   \<and> SizeOfUndoRecordTransaction 8 = 16"
  using align_up_4 [of a64]
  by (auto simp add: SizeOfUndoRecordTransaction_eq) (simp_all add: align_up_def)

theorem transaction_size_witness:
  "(0::nat) < 8 \<and> \<not> (8::nat) dvd 4 \<and> SizeOfUndoRecordTransaction 8 \<noteq> 12
   \<and> (0::nat) < 4 \<and> (4::nat) dvd 4 \<and> SizeOfUndoRecordTransaction 4 = 12"
  using transaction_size [of 8] transaction_size [of 4] by simp

text \<open>
  The claim as stated (the macro equals 12 whatever the platform) fails where \<^verbatim>\<open>uint64\<close>
  is aligned to 8 bytes.
\<close>

theorem transaction_size_counterexample: "SizeOfUndoRecordTransaction 8 \<noteq> 12"
  by (simp add: SizeOfUndoRecordTransaction_eq align_up_def)

text \<open>
  Claim C10 (record lengths are 16 bits wide). The previous-record length kept in the
  log metadata (\<open>prevlen\<close>), in a record header (\<open>urec_prevlen\<close>), in an unpacked record
  (\<open>uur_prevlen\<close>) and any value of type \<^verbatim>\<open>UndoRecordSize\<close> is at most 65535, so a
  length above 65535 is never the stored value; for every block size up to 32768 this
  bound is below \<open>UndoLogMaxSize\<close> minus one segment.
\<close>

theorem prevlen_16_bit:
  "unat (prevlen m) \<le> 65535 \<and> unat (urec_prevlen h) \<le> 65535
   \<and> unat (uur_prevlen u) \<le> 65535 \<and> unat (s :: UndoRecordSize) \<le> 65535
   \<and> (65535 < n \<longrightarrow> unat (prevlen m) \<noteq> n \<and> unat (urec_prevlen h) \<noteq> n
         \<and> unat (uur_prevlen u) \<noteq> n \<and> unat s \<noteq> n)
   \<and> (BLCKSZ \<le> 32768 \<longrightarrow> 65535 < unat UndoLogMaxSize - UndoLogSegmentSize BLCKSZ)"
proof -
  have b: "unat (w :: uint16) \<le> 65535" for w
    using unsigned_less [of w, where 'a = nat] by simp
  have "BLCKSZ \<le> 32768 \<Longrightarrow> UndoLogSegmentSize BLCKSZ \<le> 16777216"
    by (simp add: UndoLogSegmentSize_def UNDOSEG_SIZE_def)
  then have "BLCKSZ \<le> 32768 \<longrightarrow> 65535 < unat UndoLogMaxSize - UndoLogSegmentSize BLCKSZ"
    by (auto simp add: MaxSize_unat)
  moreover have "65535 < n \<longrightarrow> unat (w :: uint16) \<noteq> n" for w
    using b [of w] by auto
  ultimately show ?thesis using b by blast
qed

theorem prevlen_16_bit_witness:
  "unat (prevlen \<lparr>tablespace = 1663, insert_off = 70000, end_off = 4194304, discard = 0,
       last_xact_start = 0, is_first_rec = False, xid = 7, prevlen = ucast (70000 :: size_t)\<rparr>)
     = 4464
   \<and> (65535 :: nat) < 70000 \<and> (8192 :: nat) \<le> 32768
   \<and> 65535 < unat UndoLogMaxSize - UndoLogSegmentSize 8192"
proof -
  let ?m = "\<lparr>tablespace = 1663, insert_off = 70000, end_off = 4194304, discard = 0,
       last_xact_start = 0, is_first_rec = False, xid = 7, prevlen = ucast (70000 :: size_t)\<rparr>"
  have "(8192 :: nat) \<le> 32768" by simp
  with prevlen_16_bit [of ?m _ _ _ 70000 8192]
  have "65535 < unat UndoLogMaxSize - UndoLogSegmentSize 8192" by blast
  then show ?thesis by simp
qed

section \<open>The log manager\<close>

text \<open>
  \<^verbatim>\<open>undolog.h\<close> declares the operations of the log manager; their bodies are not part of
  the repository. The definitions of this section are written from the specification
  (section 4.1) over the types of the header. They describe one writer: its attachments
  are the component \<open>attached\<close> of the state. The component \<open>allocated\<close> records, for
  each log, the size of the last allocation that has been neither advanced over nor
  rewound; it is what the caller of \<open>allocate\<close> knows, and only the precondition of
  \<open>advance\<close> reads it.
\<close>

text \<open>
  Modelled from the spec: a control slot (only \<^verbatim>\<open>UndoLogMetaData\<close> is in the header): the metadata of a log
  and its persistence level.
\<close>

record UndoLogControl =
  meta :: UndoLogMetaData
  persistence :: UndoPersistence

text \<open>
  Modelled from the spec: the build-time constants the log manager depends on: \<^verbatim>\<open>BLCKSZ\<close>, the
  greatest record size \<^verbatim>\<open>MAX_RECORD_SIZE\<close> and the tablespace that backs new logs.
\<close>

record undo_config =
  BLCKSZ :: nat
  MAX_RECORD_SIZE :: nat
  undo_tablespace :: Oid

text \<open>
  Modelled from the spec: the shared array of control slots, the next unused log number, the
  writer's attachment per persistence level, and the allocations not yet advanced over.
\<close>

record undo_state =
  slots :: "UndoLogNumber \<rightharpoonup> UndoLogControl"
  next_logno :: UndoLogNumber
  attached :: "UndoPersistence \<rightharpoonup> UndoLogNumber"
  allocated :: "UndoLogNumber \<rightharpoonup> size_t"

text \<open>
  Modelled from the spec: the error kinds of section 7 that the modelled operations can report:
  no log can be created, \<open>advance\<close> with a mismatched pointer, and a pointer into a log
  that has no control slot.
\<close>

datatype undo_error = ResourceExhausted | InvariantViolation | UnknownLog










text \<open>
  Modelled from the spec: \<open>advance (ptr, size)\<close> of section 4.1 (\<^verbatim>\<open>UndoLogAdvance\<close> is only
  declared in the header): it verifies \<open>ptr.offset = insert\<close>, adds \<open>size\<close> to \<open>insert\<close>,
  stores \<open>size\<close> in the 16-bit field \<open>prevlen\<close> (the C conversion keeps the low 16 bits) and
  clears \<open>is_first_rec\<close>. A mismatched pointer is the invariant violation of section 7.
\<close>

definition UndoLogAdvance :: "UndoRecPtr \<Rightarrow> size_t \<Rightarrow> undo_state \<Rightarrow> undo_error + undo_state" where
  "UndoLogAdvance insertion_point sz st =
     (let l = uint (UndoRecPtrGetLogNo insertion_point) in
      case slots st l of
        None \<Rightarrow> Inl UnknownLog
      | Some c \<Rightarrow>
          if UndoRecPtrGetOffset insertion_point \<noteq> insert_off (meta c) then Inl InvariantViolation
          else Inr (st\<lparr>slots := (slots st)(l \<mapsto> c\<lparr>meta := (meta c)
                        \<lparr>insert_off := insert_off (meta c) + sz,
                         is_first_rec := False,
                         prevlen := ucast sz\<rparr>\<rparr>),
                      allocated := (allocated st)(l := None)\<rparr>))"

text \<open>
  Modelled from the spec: \<open>discard (point, xid)\<close> of section 4.1 (\<^verbatim>\<open>UndoLogDiscard\<close> is only
  declared in the header): \<open>discard\<close> of the log moves to the offset of the point; a
  point before the current \<open>discard\<close> changes nothing. Segment files are not modelled.
\<close>

definition UndoLogDiscard :: "UndoRecPtr \<Rightarrow> TransactionId \<Rightarrow> undo_state \<Rightarrow> undo_error + undo_state" where
  "UndoLogDiscard discard_point xid' st =
     (let l = uint (UndoRecPtrGetLogNo discard_point) in
      case slots st l of
        None \<Rightarrow> Inl UnknownLog
      | Some c \<Rightarrow>
          if UndoRecPtrGetOffset discard_point < discard (meta c) then Inr st
          else Inr (st\<lparr>slots := (slots st)(l \<mapsto> c\<lparr>meta := (meta c)
                        \<lparr>discard := UndoRecPtrGetOffset discard_point\<rparr>\<rparr>)\<rparr>))"

text \<open>
  Modelled from the spec: \<open>is_discarded (ptr)\<close> of section 4.1 (\<^verbatim>\<open>UndoLogIsDiscarded\<close> is only
  declared in the header): true iff the offset of the pointer is below \<open>discard\<close> of its
  log. A log without a control slot has been destroyed after it was fully discarded, so
  every pointer into it counts as discarded.
\<close>

definition UndoLogIsDiscarded :: "UndoRecPtr \<Rightarrow> undo_state \<Rightarrow> bool" where
  "UndoLogIsDiscarded point st =
     (case slots st (uint (UndoRecPtrGetLogNo point)) of
        None \<Rightarrow> True
      | Some c \<Rightarrow> UndoRecPtrGetOffset point < discard (meta c))"











definition log_meta :: "UndoLogNumber \<Rightarrow> undo_error + undo_state \<Rightarrow> UndoLogMetaData option" where
  "log_meta l r = (case r of Inl e \<Rightarrow> None | Inr st \<Rightarrow> map_option meta (slots st l))"


definition example_state :: undo_state where
  "example_state =
     \<lparr>slots = [0 \<mapsto> \<lparr>meta = \<lparr>tablespace = 1663, insert_off = 0, end_off = 4194304,
                 discard = 0, last_xact_start = 0, is_first_rec = True, xid = 7, prevlen = 0\<rparr>,
               persistence = UNDO_PERSISTENT\<rparr>],
      next_logno = 1,
      attached = [UNDO_PERSISTENT \<mapsto> 0],
      allocated = [0 \<mapsto> 100]\<rparr>"

subsection \<open>The invariant is preserved\<close>






















lemma logno00: "uint (UndoRecPtrGetLogNo (MakeUndoRecPtr 0 0)) = 0"
  by (simp add: UndoRecPtrGetLogNo_def MakeUndoRecPtr_def)






text \<open>
  Claim C5 (advance), as amended. For every call \<open>advance (p, n)\<close> on an existing log
  whose insertion point is the offset of \<open>p\<close>, the call succeeds and afterwards \<open>insert\<close>
  is the offset of \<open>p\<close> plus \<open>n\<close> (in 64-bit arithmetic), \<open>is_first_rec\<close> is false, and
  \<open>prevlen\<close> holds the low 16 bits of \<open>n\<close>: it equals \<open>n\<close> whenever \<open>n \<le> 65535\<close>.
\<close>

theorem advance_effect:
  assumes "slots st (uint (UndoRecPtrGetLogNo p)) = Some c"
    and "UndoRecPtrGetOffset p = insert_off (meta c)"
  shows "\<exists>st' c'. UndoLogAdvance p n st = Inr st'
      \<and> slots st' (uint (UndoRecPtrGetLogNo p)) = Some c'
      \<and> insert_off (meta c') = UndoRecPtrGetOffset p + n
      \<and> prevlen (meta c') = ucast n
      \<and> unat (prevlen (meta c')) = unat n mod 65536
      \<and> (unat n \<le> 65535 \<longrightarrow> unat (prevlen (meta c')) = unat n)
      \<and> \<not> is_first_rec (meta c')"
  using assms by (simp add: UndoLogAdvance_def Let_def unsigned_ucast_eq take_bit_eq_mod)

theorem advance_effect_witness:
  "slots example_state (uint (UndoRecPtrGetLogNo (MakeUndoRecPtr 0 0))) = Some (the (slots example_state 0))
   \<and> UndoRecPtrGetOffset (MakeUndoRecPtr 0 0) = insert_off (meta (the (slots example_state 0)))
   \<and> map_option insert_off (log_meta 0 (UndoLogAdvance (MakeUndoRecPtr 0 0) 100 example_state)) = Some 100
   \<and> map_option prevlen (log_meta 0 (UndoLogAdvance (MakeUndoRecPtr 0 0) 100 example_state)) = Some 100
   \<and> map_option is_first_rec (log_meta 0 (UndoLogAdvance (MakeUndoRecPtr 0 0) 100 example_state)) = Some False"
proof -
  have a: "slots example_state (uint (UndoRecPtrGetLogNo (MakeUndoRecPtr 0 0))) = Some (the (slots example_state 0))"
    by (simp add: logno00 example_state_def)
  have b: "UndoRecPtrGetOffset (MakeUndoRecPtr 0 0) = insert_off (meta (the (slots example_state 0)))"
    by (simp add: example_state_def UndoRecPtrGetOffset_def MakeUndoRecPtr_def)
  have z: "UndoRecPtrGetOffset (MakeUndoRecPtr 0 0) = 0"
    by (simp add: UndoRecPtrGetOffset_def MakeUndoRecPtr_def)
  from advance_effect [OF a b, of 100] obtain st' c' where
    "UndoLogAdvance (MakeUndoRecPtr 0 0) 100 example_state = Inr st'"
    "slots st' 0 = Some c'" "insert_off (meta c') = 100" "unat (prevlen (meta c')) = 100"
    "\<not> is_first_rec (meta c')"
    by (auto simp: logno00 z)
  then show ?thesis using a b by (simp add: log_meta_def word_unat_eq_iff)
qed

text \<open>
  The claim as stated (\<open>prevlen\<close> equals \<open>n\<close> for every \<open>n\<close>) fails for \<open>n = 65536\<close>: the
  precondition holds in \<open>example_state\<close>, and \<open>prevlen\<close> is 0 after the call.
\<close>

theorem advance_prevlen_counterexample:
  "map_option insert_off (log_meta 0 (Inr example_state)) = Some (UndoRecPtrGetOffset (MakeUndoRecPtr 0 0))
   \<and> map_option prevlen (log_meta 0 (UndoLogAdvance (MakeUndoRecPtr 0 0) 65536 example_state)) = Some 0
   \<and> unat (0 :: uint16) \<noteq> unat (65536 :: size_t)"
  by (simp add: UndoLogAdvance_def Let_def logno00 example_state_def log_meta_def)
    (simp add: UndoRecPtrGetOffset_def MakeUndoRecPtr_def)

text \<open>
  Claim C6 (discarded pointers). For a pointer \<open>p\<close> into an existing log,
  \<open>UndoLogIsDiscarded\<close> is true iff the offset of \<open>p\<close> is below \<open>discard\<close> of that log; and
  \<open>discard (q, xid)\<close> on an existing log succeeds, after which every pointer into the log
  of \<open>q\<close> with an offset below that of \<open>q\<close> is discarded.
\<close>

theorem is_discarded_iff:
  assumes "slots st (uint (UndoRecPtrGetLogNo p)) = Some c"
    and "slots st (uint (UndoRecPtrGetLogNo q)) = Some d"
  shows "(UndoLogIsDiscarded p st \<longleftrightarrow> UndoRecPtrGetOffset p < discard (meta c))
    \<and> (\<exists>st'. UndoLogDiscard q xid' st = Inr st'
         \<and> (\<forall>r. UndoRecPtrGetLogNo r = UndoRecPtrGetLogNo q
                  \<and> UndoRecPtrGetOffset r < UndoRecPtrGetOffset q
                \<longrightarrow> UndoLogIsDiscarded r st'))"
  using assms by (auto simp: UndoLogIsDiscarded_def UndoLogDiscard_def Let_def)

theorem is_discarded_iff_witness:
  "slots example_state (uint (UndoRecPtrGetLogNo (MakeUndoRecPtr 0 10)))
     = Some (the (slots example_state 0))
   \<and> slots example_state (uint (UndoRecPtrGetLogNo (MakeUndoRecPtr 0 50)))
     = Some (the (slots example_state 0))
   \<and> \<not> UndoLogIsDiscarded (MakeUndoRecPtr 0 10) example_state
   \<and> UndoRecPtrGetLogNo (MakeUndoRecPtr 0 10) = UndoRecPtrGetLogNo (MakeUndoRecPtr 0 50)
   \<and> UndoRecPtrGetOffset (MakeUndoRecPtr 0 10) < UndoRecPtrGetOffset (MakeUndoRecPtr 0 50)
   \<and> UndoLogIsDiscarded (MakeUndoRecPtr 0 10)
        (projr (UndoLogDiscard (MakeUndoRecPtr 0 50) 7 example_state))"
proof -
  have l: "UndoRecPtrGetLogNo (MakeUndoRecPtr 0 10) = 0"
      "UndoRecPtrGetLogNo (MakeUndoRecPtr 0 50) = 0"
    by (simp_all add: UndoRecPtrGetLogNo_def MakeUndoRecPtr_def UndoLogOffsetBits_def
        UndoLogNumberBits_def)
  have o: "UndoRecPtrGetOffset (MakeUndoRecPtr 0 10) = 10"
      "UndoRecPtrGetOffset (MakeUndoRecPtr 0 50) = 50"
    by (simp_all add: UndoRecPtrGetOffset_def MakeUndoRecPtr_def UndoLogOffsetBits_def
        UndoLogNumberBits_def)
  have a: "slots example_state (uint (UndoRecPtrGetLogNo (MakeUndoRecPtr 0 10)))
      = Some (the (slots example_state 0))"
    and b: "slots example_state (uint (UndoRecPtrGetLogNo (MakeUndoRecPtr 0 50)))
      = Some (the (slots example_state 0))"
    by (simp_all add: l example_state_def)
  from is_discarded_iff [OF a b, of 7] obtain st' where
    n: "UndoLogIsDiscarded (MakeUndoRecPtr 0 10) example_state
        \<longleftrightarrow> UndoRecPtrGetOffset (MakeUndoRecPtr 0 10)
            < discard (meta (the (slots example_state 0)))"
    and d: "UndoLogDiscard (MakeUndoRecPtr 0 50) 7 example_state = Inr st'"
    and r: "\<And>r. UndoRecPtrGetLogNo r = UndoRecPtrGetLogNo (MakeUndoRecPtr 0 50)
        \<and> UndoRecPtrGetOffset r < UndoRecPtrGetOffset (MakeUndoRecPtr 0 50)
      \<Longrightarrow> UndoLogIsDiscarded r st'"
    by blast
  have "\<not> UndoLogIsDiscarded (MakeUndoRecPtr 0 10) example_state"
    using n by (simp add: o example_state_def)
  moreover have "UndoLogIsDiscarded (MakeUndoRecPtr 0 10) st'"
    by (rule r) (simp add: l o)
  ultimately show ?thesis using a b d by (simp add: l o)
qed




section \<open>Checkpoint file names (undolog.h)\<close>

text \<open>
  \<^verbatim>\<open>UndoCheckPointFilenamePrecedes\<close> is \<^verbatim>\<open>strcmp (file1, file2) < 0\<close>. The C library's
  \<^verbatim>\<open>strcmp\<close> compares two strings byte by byte as unsigned characters and returns the
  difference at the first position where they differ, the end of a string counting as
  the byte 0. A string is the list of its characters before the terminator.
\<close>

type_synonym XLogRecPtr = uint64

definition UNDO_CHECKPOINT_FILENAME_LENGTH :: nat where
  "UNDO_CHECKPOINT_FILENAME_LENGTH = 16"

fun strcmp :: "string \<Rightarrow> string \<Rightarrow> int" where
  "strcmp [] [] = 0"
| "strcmp [] (y # ys) = - int (of_char y)"
| "strcmp (x # xs) [] = int (of_char x)"
| "strcmp (x # xs) (y # ys) =
     (if x = y then strcmp xs ys else int (of_char x) - int (of_char y))"

definition UndoCheckPointFilenamePrecedes :: "string \<Rightarrow> string \<Rightarrow> bool" where
  "UndoCheckPointFilenamePrecedes file1 file2 = (strcmp file1 file2 < 0)"

text \<open>
  Modelled from the spec: the name of a checkpoint file, the redo LSN written as exactly
  16 hexadecimal digits, most significant first, padded with zeros (the body of the
  function that builds it is not in the repository; \<^verbatim>\<open>UndoRecPtrFormat\<close> of the header,
  \<^verbatim>\<open>%016lX\<close>, writes a pointer in the same shape). Whether the digits above 9 are the
  upper-case or the lower-case letters is the parameter \<open>upper\<close>.
\<close>

definition hex_digit :: "bool \<Rightarrow> nat \<Rightarrow> char" where
  "hex_digit upper d = (if upper then ''0123456789ABCDEF'' else ''0123456789abcdef'') ! d"

text \<open>
  Modelled from the spec: \<open>k\<close> hexadecimal digits of a number, most significant first.
\<close>

fun hex_digits :: "bool \<Rightarrow> nat \<Rightarrow> nat \<Rightarrow> string" where
  "hex_digits upper 0 v = []"
| "hex_digits upper (Suc k) v = hex_digits upper k (v div 16) @ [hex_digit upper (v mod 16)]"

text \<open>
  Modelled from the spec: the checkpoint file name of a redo LSN.
\<close>

definition UndoCheckPointFilename :: "bool \<Rightarrow> XLogRecPtr \<Rightarrow> string" where
  "UndoCheckPointFilename upper redo = hex_digits upper UNDO_CHECKPOINT_FILENAME_LENGTH (unat redo)"

lemma below_16_cases:
  assumes "(d::nat) < 16"
  shows "d = 0 \<or> d = 1 \<or> d = 2 \<or> d = 3 \<or> d = 4 \<or> d = 5 \<or> d = 6 \<or> d = 7 \<or> d = 8
    \<or> d = 9 \<or> d = 10 \<or> d = 11 \<or> d = 12 \<or> d = 13 \<or> d = 14 \<or> d = 15"
  using assms by presburger

lemma of_char_hex_digit:
  assumes "d < 16"
  shows "(of_char (hex_digit upper d) :: nat) =
     (if d < 10 then 48 + d else if upper then 55 + d else 87 + d)"
  using below_16_cases [OF assms] by (elim disjE) (simp_all add: hex_digit_def)

lemma hex_digit_less:
  assumes "m < 16" "n < 16"
  shows "(of_char (hex_digit upper m) :: nat) < of_char (hex_digit upper n) \<longleftrightarrow> m < n"
  using assms by (auto simp add: of_char_hex_digit)

lemma hex_digit_inj:
  assumes "m < 16" "n < 16"
  shows "hex_digit upper m = hex_digit upper n \<longleftrightarrow> m = n"
proof
  assume "hex_digit upper m = hex_digit upper n"
  then have "(of_char (hex_digit upper m) :: nat) = of_char (hex_digit upper n)" by simp
  then show "m = n" using assms by (auto simp add: of_char_hex_digit split: if_splits)
qed simp

lemma length_hex_digits [simp]: "length (hex_digits upper k v) = k"
  by (induction k arbitrary: v) simp_all

lemma strcmp_append:
  assumes "length xs = length ys"
  shows "strcmp (xs @ us) (ys @ vs) = (if xs = ys then strcmp us vs else strcmp xs ys)"
  using assms by (induction xs ys rule: list_induct2) auto

lemma strcmp_single: "strcmp [c] [d] < 0 \<longleftrightarrow> (of_char c :: nat) < of_char d"
  by auto

lemma less_by_digits:
  fixes a b :: nat
  shows "a < b \<longleftrightarrow> a div 16 < b div 16 \<or> (a div 16 = b div 16 \<and> a mod 16 < b mod 16)"
proof -
  have "a = 16 * (a div 16) + a mod 16" "b = 16 * (b div 16) + b mod 16" by simp_all
  moreover have "a mod 16 < 16" "b mod 16 < 16" by simp_all
  ultimately show ?thesis by linarith
qed

lemma eq_by_digits:
  fixes a b :: nat
  shows "a = b \<longleftrightarrow> a div 16 = b div 16 \<and> a mod 16 = b mod 16"
  by (metis div_mult_mod_eq)

lemma hex_digits_order:
  assumes "a < 16 ^ k" "b < 16 ^ k"
  shows "(hex_digits upper k a = hex_digits upper k b \<longleftrightarrow> a = b)
   \<and> (strcmp (hex_digits upper k a) (hex_digits upper k b) < 0 \<longleftrightarrow> a < b)"
  using assms
proof (induction k arbitrary: a b)
  case 0
  then show ?case by simp
next
  case (Suc k)
  let ?xs = "hex_digits upper k (a div 16)" and ?ys = "hex_digits upper k (b div 16)"
  let ?c = "hex_digit upper (a mod 16)" and ?d = "hex_digit upper (b mod 16)"
  have "a div 16 < 16 ^ k" "b div 16 < 16 ^ k"
    using Suc.prems by (simp_all add: less_mult_imp_div_less mult.commute)
  note ih = Suc.IH [OF this]
  have dl: "(of_char ?c :: nat) < of_char ?d \<longleftrightarrow> a mod 16 < b mod 16"
    by (rule hex_digit_less) simp_all
  have di: "?c = ?d \<longleftrightarrow> a mod 16 = b mod 16"
    by (rule hex_digit_inj) simp_all
  have e: "hex_digits upper (Suc k) a = hex_digits upper (Suc k) b \<longleftrightarrow> a = b"
    using ih di by (subst eq_by_digits [of a b]) simp
  have "strcmp (hex_digits upper (Suc k) a) (hex_digits upper (Suc k) b) < 0
      \<longleftrightarrow> (if ?xs = ?ys then strcmp [?c] [?d] < 0 else strcmp ?xs ?ys < 0)"
    by (simp add: strcmp_append)
  also have "\<dots> \<longleftrightarrow> (if a div 16 = b div 16 then a mod 16 < b mod 16 else a div 16 < b div 16)"
    using ih dl by (simp add: strcmp_single del: strcmp.simps)
  also have "\<dots> \<longleftrightarrow> a < b"
    by (subst less_by_digits [of a b]) auto
  finally show ?case using e by blast
qed

lemma hex_digits_numeral:
  "hex_digits upper (numeral n) v
     = hex_digits upper (pred_numeral n) (v div 16) @ [hex_digit upper (v mod 16)]"
  by (simp only: numeral_eq_Suc hex_digits.simps)

lemma hex_digits_1: "hex_digits upper 1 v = [hex_digit upper (v mod 16)]"
  by simp

text \<open>
  Claim C8 (checkpoint file names order as their LSNs). The name of a checkpoint file
  has 16 characters, and for any two redo LSNs \<open>a\<close> and \<open>b\<close> the comparison
  \<open>UndoCheckPointFilenamePrecedes\<close> of their names holds iff \<open>a < b\<close>; distinct LSNs have
  distinct names, and a name that precedes none of a list of names is that of the
  greatest (newest) LSN.
\<close>

theorem checkpoint_filename_order:
  "length (UndoCheckPointFilename upper a) = UNDO_CHECKPOINT_FILENAME_LENGTH
   \<and> (UndoCheckPointFilenamePrecedes (UndoCheckPointFilename upper a)
         (UndoCheckPointFilename upper b) \<longleftrightarrow> a < b)
   \<and> (UndoCheckPointFilename upper a = UndoCheckPointFilename upper b \<longleftrightarrow> a = b)
   \<and> ((\<forall>c \<in> set lsns. \<not> UndoCheckPointFilenamePrecedes (UndoCheckPointFilename upper a)
          (UndoCheckPointFilename upper c)) \<longleftrightarrow> (\<forall>c \<in> set lsns. c \<le> a))"
proof -
  have bound: "unat (w :: XLogRecPtr) < 16 ^ 16" for w
    using unsigned_less [of w, where 'a = nat] by simp
  have o: "(UndoCheckPointFilename upper x = UndoCheckPointFilename upper y \<longleftrightarrow> x = y)
    \<and> (UndoCheckPointFilenamePrecedes (UndoCheckPointFilename upper x)
         (UndoCheckPointFilename upper y) \<longleftrightarrow> x < y)" for x y
    using hex_digits_order [OF bound [of x] bound [of y], of upper]
    by (simp add: UndoCheckPointFilename_def UndoCheckPointFilenamePrecedes_def
        UNDO_CHECKPOINT_FILENAME_LENGTH_def word_less_nat_alt word_unat_eq_iff)
  have "length (UndoCheckPointFilename upper a) = UNDO_CHECKPOINT_FILENAME_LENGTH"
    by (simp add: UndoCheckPointFilename_def)
  moreover have "(\<forall>c \<in> set lsns. \<not> UndoCheckPointFilenamePrecedes (UndoCheckPointFilename upper a)
          (UndoCheckPointFilename upper c)) \<longleftrightarrow> (\<forall>c \<in> set lsns. c \<le> a)"
    by (simp add: o not_less)
  ultimately show ?thesis using o by blast
qed


theorem checkpoint_filename_order_witness:
  "UndoCheckPointFilename True 0xA000 = ''000000000000A000''
   \<and> UndoCheckPointFilename True 0x9FFF = ''0000000000009FFF''
   \<and> UndoCheckPointFilenamePrecedes ''0000000000009FFF'' ''000000000000A000''
   \<and> \<not> UndoCheckPointFilenamePrecedes ''000000000000A000'' ''0000000000009FFF''
   \<and> (0x9FFF :: XLogRecPtr) < 0xA000"
proof -
  have a: "UndoCheckPointFilename True 0xA000 = ''000000000000A000''"
    by (simp add: UndoCheckPointFilename_def UNDO_CHECKPOINT_FILENAME_LENGTH_def
        hex_digits_numeral hex_digits_1 hex_digit_def)
  have b: "UndoCheckPointFilename True 0x9FFF = ''0000000000009FFF''"
    by (simp add: UndoCheckPointFilename_def UNDO_CHECKPOINT_FILENAME_LENGTH_def
        hex_digits_numeral hex_digits_1 hex_digit_def)
  have c: "(0x9FFF :: XLogRecPtr) < 0xA000" by simp
  have "UndoCheckPointFilenamePrecedes (UndoCheckPointFilename True 0x9FFF)
      (UndoCheckPointFilename True 0xA000) \<longleftrightarrow> (0x9FFF :: XLogRecPtr) < 0xA000"
    using checkpoint_filename_order [of True "0x9FFF" "0xA000" "[]"] by blast
  moreover have "UndoCheckPointFilenamePrecedes (UndoCheckPointFilename True 0xA000)
      (UndoCheckPointFilename True 0x9FFF) \<longleftrightarrow> (0xA000 :: XLogRecPtr) < 0x9FFF"
    using checkpoint_filename_order [of True "0xA000" "0x9FFF" "[]"] by blast
  ultimately show ?thesis using c unfolding a b by simp
qed

section \<open>The record codec\<close>

text \<open>
  \<^verbatim>\<open>undorecord.h\<close> declares \<^verbatim>\<open>UndoRecordExpectedSize\<close>, \<^verbatim>\<open>InsertUndoRecord\<close> and
  \<^verbatim>\<open>UnpackUndoRecord\<close> and documents how they are called; their bodies are not part of
  the repository. The definitions of this section are written from the specification
  (sections 3 and 4.2) over the structures of the header.
\<close>

text \<open>
  Modelled from the spec: the constants of the build the codec depends on and that the two headers
  do not define: the block size (\<^verbatim>\<open>BLCKSZ\<close>), the size of the page header, the alignment of
  \<^verbatim>\<open>uint64\<close>, the byte order of the host, and the default values of the optional fields.
\<close>

record codec_config =
  PAGE_SIZE :: nat
  SizeOfPageHeaderData :: nat
  uint64_align :: nat
  big_endian :: bool
  DEFAULTTABLESPACE_OID :: Oid
  MAIN_FORKNUM :: ForkNumber
  InvalidBlockNumber :: BlockNumber
  InvalidOffsetNumber :: OffsetNumber

text \<open>
  Modelled from the spec: the \<open>k\<close> bytes of a number, least significant first.
\<close>

fun le_bytes :: "nat \<Rightarrow> nat \<Rightarrow> byte list" where
  "le_bytes 0 v = []"
| "le_bytes (Suc k) v = of_nat (v mod 256) # le_bytes k (v div 256)"

text \<open>
  Modelled from the spec: the number that a list of bytes holds, least significant byte first.
\<close>

fun le_value :: "byte list \<Rightarrow> nat" where
  "le_value [] = 0"
| "le_value (b # bs) = unat b + 256 * le_value bs"

text \<open>
  Modelled from the spec: a multi-byte integer in host byte order (section 4.2, encoding contracts).
\<close>

definition host_bytes :: "codec_config \<Rightarrow> nat \<Rightarrow> nat \<Rightarrow> byte list" where
  "host_bytes cfg k v = (if big_endian cfg then rev (le_bytes k v) else le_bytes k v)"

text \<open>
  Modelled from the spec: the value of bytes in host byte order.
\<close>

definition host_value :: "codec_config \<Rightarrow> byte list \<Rightarrow> nat" where
  "host_value cfg bs = le_value (if big_endian cfg then rev bs else bs)"

text \<open>
  Modelled from the spec: the bytes of an integer field of \<open>k\<close> bytes.
\<close>

definition put_field :: "codec_config \<Rightarrow> nat \<Rightarrow> 'a::len word \<Rightarrow> byte list" where
  "put_field cfg k w = host_bytes cfg k (unat w)"

text \<open>
  Modelled from the spec: reading an integer field of \<open>k\<close> bytes from the front of a byte list; the
  bytes after it are returned as well.
\<close>

definition get_field :: "codec_config \<Rightarrow> nat \<Rightarrow> byte list \<Rightarrow> 'a::len word \<times> byte list" where
  "get_field cfg k bs = (of_nat (host_value cfg (take k bs)), drop k bs)"

text \<open>
  Modelled from the spec: the header structure of an unpacked record.
\<close>

definition work_hdr :: "UnpackedUndoRecord \<Rightarrow> UndoRecordHeader" where
  "work_hdr uur = \<lparr>urec_type = uur_type uur, urec_info = uur_info uur,
     urec_prevlen = uur_prevlen uur, urec_relfilenode = uur_relfilenode uur,
     urec_prevxid = uur_prevxid uur, urec_xid = uur_xid uur, urec_cid = uur_cid uur\<rparr>"

text \<open>
  Modelled from the spec: the relation details of an unpacked record.
\<close>

definition work_rd :: "UnpackedUndoRecord \<Rightarrow> UndoRecordRelationDetails" where
  "work_rd uur = \<lparr>urec_tsid = uur_tsid uur, urec_fork = uur_fork uur\<rparr>"

text \<open>
  Modelled from the spec: the block structure of an unpacked record.
\<close>

definition work_blk :: "UnpackedUndoRecord \<Rightarrow> UndoRecordBlock" where
  "work_blk uur = \<lparr>urec_blkprev = uur_blkprev uur, urec_block = uur_block uur,
     urec_offset = uur_offset uur\<rparr>"

text \<open>
  Modelled from the spec: the transaction structure of an unpacked record.
\<close>

definition work_txn :: "UnpackedUndoRecord \<Rightarrow> UndoRecordTransaction" where
  "work_txn uur = \<lparr>urec_xidepoch = uur_xidepoch uur, urec_next = uur_next uur\<rparr>"

text \<open>
  Modelled from the spec: the payload structure of an unpacked record: the lengths of the payload
  and of the tuple data, converted to the 16-bit fields.
\<close>

definition work_payload :: "UnpackedUndoRecord \<Rightarrow> UndoRecordPayload" where
  "work_payload uur = \<lparr>urec_payload_len = of_nat (length (uur_payload uur)),
     urec_tuple_len = of_nat (length (uur_tuple uur))\<rparr>"

text \<open>
  Modelled from the spec: the Header section, its fields in the order of the structure
  (1 + 1 + 2 + 4 + 4 + 4 + 4 bytes).
\<close>

definition header_bytes :: "codec_config \<Rightarrow> UndoRecordHeader \<Rightarrow> byte list" where
  "header_bytes cfg h =
     put_field cfg 1 (urec_type h) @ put_field cfg 1 (urec_info h)
     @ put_field cfg 2 (urec_prevlen h) @ put_field cfg 4 (urec_relfilenode h)
     @ put_field cfg 4 (urec_prevxid h) @ put_field cfg 4 (urec_xid h)
     @ put_field cfg 4 (urec_cid h)"

text \<open>
  Modelled from the spec: the RelationDetails section: the tablespace (4 bytes) and the fork
  number in one byte.
\<close>

definition relation_details_bytes :: "codec_config \<Rightarrow> UndoRecordRelationDetails \<Rightarrow> byte list" where
  "relation_details_bytes cfg rd =
     put_field cfg 4 (urec_tsid rd) @ put_field cfg 1 (word_of_int (urec_fork rd) :: uint8)"

text \<open>
  Modelled from the spec: the Block section (8 + 4 + 2 bytes).
\<close>

definition block_bytes :: "codec_config \<Rightarrow> UndoRecordBlock \<Rightarrow> byte list" where
  "block_bytes cfg b =
     put_field cfg 8 (urec_blkprev b) @ put_field cfg 4 (urec_block b)
     @ put_field cfg 2 (urec_offset b)"

text \<open>
  Modelled from the spec: the bytes between \<^verbatim>\<open>urec_xidepoch\<close> and \<^verbatim>\<open>urec_next\<close> that the layout of
  the structure leaves, so that the section has the size \<open>SizeOfUndoRecordTransaction\<close> of
  the header; none where \<^verbatim>\<open>uint64\<close> is aligned to 4 bytes, which is the layout of the spec.
\<close>

definition transaction_padding :: "codec_config \<Rightarrow> nat" where
  "transaction_padding cfg =
     offsetof (uint64_align cfg) UndoRecordTransaction_members 1 - sizeof c_uint32"

text \<open>
  Modelled from the spec: the Transaction section: the xid epoch (4 bytes) and the pointer to
  the next transaction (8 bytes).
\<close>

definition transaction_bytes :: "codec_config \<Rightarrow> UndoRecordTransaction \<Rightarrow> byte list" where
  "transaction_bytes cfg t =
     put_field cfg 4 (urec_xidepoch t) @ replicate (transaction_padding cfg) 0
     @ put_field cfg 8 (urec_next t)"

text \<open>
  Modelled from the spec: the Payload sizes section (2 + 2 bytes).
\<close>

definition payload_bytes :: "codec_config \<Rightarrow> UndoRecordPayload \<Rightarrow> byte list" where
  "payload_bytes cfg p =
     put_field cfg 2 (urec_payload_len p) @ put_field cfg 2 (urec_tuple_len p)"

text \<open>
  Modelled from the spec: the test of a flag bit of \<^verbatim>\<open>urec_info\<close>.
\<close>

definition has_info :: "uint8 \<Rightarrow> uint8 \<Rightarrow> bool" where
  "has_info info flag = (info AND flag \<noteq> 0)"

text \<open>
  Modelled from the spec: the flag bits implied by the optional fields that are not at their default
  value (section 4.2, \<open>expected_size\<close>).
\<close>

definition info_bits :: "codec_config \<Rightarrow> UnpackedUndoRecord \<Rightarrow> uint8" where
  "info_bits cfg uur =
     (if uur_tsid uur \<noteq> DEFAULTTABLESPACE_OID cfg \<or> uur_fork uur \<noteq> MAIN_FORKNUM cfg
      then UREC_INFO_RELATION_DETAILS else 0)
     OR (if uur_blkprev uur \<noteq> InvalidUndoRecPtr \<or> uur_block uur \<noteq> InvalidBlockNumber cfg
            \<or> uur_offset uur \<noteq> InvalidOffsetNumber cfg
         then UREC_INFO_BLOCK else 0)
     OR (if uur_xidepoch uur \<noteq> 0 \<or> uur_next uur \<noteq> InvalidUndoRecPtr
         then UREC_INFO_TRANSACTION else 0)
     OR (if uur_payload uur \<noteq> [] \<or> uur_tuple uur \<noteq> []
         then UREC_INFO_PAYLOAD else 0)"

text \<open>
  Modelled from the spec: the side effect of \<open>expected_size\<close> and \<open>insert_record\<close> on the flags: the
  implied bits are OR-ed into \<^verbatim>\<open>uur_info\<close>.
\<close>

definition UndoRecordSetInfo :: "codec_config \<Rightarrow> UnpackedUndoRecord \<Rightarrow> UnpackedUndoRecord" where
  "UndoRecordSetInfo cfg uur = uur\<lparr>uur_info := uur_info uur OR info_bits cfg uur\<rparr>"

text \<open>
  Modelled from the spec: the size of the header and of the optional structures that the flags select.
\<close>

definition fixed_size :: "codec_config \<Rightarrow> uint8 \<Rightarrow> nat" where
  "fixed_size cfg info =
     SizeOfUndoRecordHeader (uint64_align cfg)
     + (if has_info info UREC_INFO_RELATION_DETAILS
        then SizeOfUndoRecordRelationDetails (uint64_align cfg) else 0)
     + (if has_info info UREC_INFO_BLOCK then SizeOfUndoRecordBlock (uint64_align cfg) else 0)
     + (if has_info info UREC_INFO_TRANSACTION
        then SizeOfUndoRecordTransaction (uint64_align cfg) else 0)
     + (if has_info info UREC_INFO_PAYLOAD then SizeOfUndoRecordPayload (uint64_align cfg) else 0)"

text \<open>
  Modelled from the spec: \<open>expected_size\<close> of section 4.2 (\<^verbatim>\<open>UndoRecordExpectedSize\<close> is only
  declared in the header): the size of the record from its flags and its payload and
  tuple lengths, and the record with its flags set.
\<close>

definition UndoRecordExpectedSize :: "codec_config \<Rightarrow> UnpackedUndoRecord \<Rightarrow> nat \<times> UnpackedUndoRecord" where
  "UndoRecordExpectedSize cfg uur =
     (let uur' = UndoRecordSetInfo cfg uur in
      (fixed_size cfg (uur_info uur')
       + (if has_info (uur_info uur') UREC_INFO_PAYLOAD
          then length (uur_payload uur') + length (uur_tuple uur') else 0),
       uur'))"

text \<open>
  Modelled from the spec: the sections of a serialized record, in the order of section 3: Header,
  RelationDetails, Block, Transaction, Payload sizes, payload bytes, tuple bytes.
\<close>

definition record_sections :: "codec_config \<Rightarrow> UnpackedUndoRecord \<Rightarrow> byte list list" where
  "record_sections cfg uur =
     [header_bytes cfg (work_hdr uur)]
     @ (if has_info (uur_info uur) UREC_INFO_RELATION_DETAILS
        then [relation_details_bytes cfg (work_rd uur)] else [])
     @ (if has_info (uur_info uur) UREC_INFO_BLOCK then [block_bytes cfg (work_blk uur)] else [])
     @ (if has_info (uur_info uur) UREC_INFO_TRANSACTION
        then [transaction_bytes cfg (work_txn uur)] else [])
     @ (if has_info (uur_info uur) UREC_INFO_PAYLOAD
        then [payload_bytes cfg (work_payload uur), uur_payload uur, uur_tuple uur] else [])"

text \<open>
  Modelled from the spec: the cursor of one \<open>insert_record\<close> call: the page, the write position in
  it, the bytes of the record still to skip because earlier calls wrote them, and the
  bytes written so far by all calls.
\<close>

type_synonym insert_cursor = "Page \<times> nat \<times> nat \<times> nat"

text \<open>
  Modelled from the spec: writing one section at the cursor. The part of the section that earlier
  calls wrote is skipped; of the rest, as many bytes as the page has room for are copied.
  The result is true iff the section is now completely written.
\<close>

definition insert_bytes :: "codec_config \<Rightarrow> byte list \<Rightarrow> insert_cursor \<Rightarrow> bool \<times> insert_cursor" where
  "insert_bytes cfg source cur =
     (case cur of (page, writeptr, my_bytes_written, total_bytes_written) \<Rightarrow>
        if length source \<le> my_bytes_written
        then (True, (page, writeptr, my_bytes_written - length source, total_bytes_written))
        else
          let remaining = length source - my_bytes_written;
              can_write = min remaining (PAGE_SIZE cfg - writeptr)
          in if can_write = 0 then (False, cur)
             else (can_write = remaining,
                   (take writeptr page @ take can_write (drop my_bytes_written source)
                      @ drop (writeptr + can_write) page,
                    writeptr + can_write, 0, total_bytes_written + can_write)))"

text \<open>
  Modelled from the spec: writing the sections in order, until one does not fit.
\<close>

fun insert_sections :: "codec_config \<Rightarrow> byte list list \<Rightarrow> insert_cursor \<Rightarrow> bool \<times> insert_cursor" where
  "insert_sections cfg [] cur = (True, cur)"
| "insert_sections cfg (s # ss) cur =
     (case insert_bytes cfg s cur of
        (True, cur') \<Rightarrow> insert_sections cfg ss cur'
      | (False, cur') \<Rightarrow> (False, cur'))"

text \<open>
  Modelled from the spec: \<open>insert_record\<close> of section 4.2 (\<^verbatim>\<open>InsertUndoRecord\<close> is only declared
  in the header): it sets the flags, writes as many bytes of the record as fit in the
  page from \<open>starting_byte\<close>, skipping the \<open>already_written\<close> ones, and returns whether the
  record is complete, the record, the page and the updated \<open>already_written\<close>.
\<close>

definition InsertUndoRecord :: "codec_config \<Rightarrow> UnpackedUndoRecord \<Rightarrow> Page \<Rightarrow> nat \<Rightarrow> nat
    \<Rightarrow> bool \<times> UnpackedUndoRecord \<times> Page \<times> nat" where
  "InsertUndoRecord cfg uur page starting_byte already_written =
     (let uur' = UndoRecordSetInfo cfg uur in
      case insert_sections cfg (record_sections cfg uur')
             (page, starting_byte, already_written, already_written) of
        (done, (page', writeptr, my_bytes_written, total_bytes_written)) \<Rightarrow>
          (done, uur', page', total_bytes_written))"

text \<open>
  Modelled from the spec: the errors of the codec: a corrupt record (section 7), and a caller that
  runs out of pages before the record is complete.
\<close>

datatype codec_error = CorruptRecord | OutOfPages

text \<open>
  Modelled from the spec: the caller's loop of section 4.2 over successive pages; a continuation
  starts immediately after the page header.
\<close>

fun insert_record :: "codec_config \<Rightarrow> UnpackedUndoRecord \<Rightarrow> Page list \<Rightarrow> nat \<Rightarrow> nat
    \<Rightarrow> codec_error + UnpackedUndoRecord \<times> Page list" where
  "insert_record cfg uur [] starting_byte already_written = Inl OutOfPages"
| "insert_record cfg uur (page # pages) starting_byte already_written =
     (case InsertUndoRecord cfg uur page starting_byte already_written of
        (True, uur', page', already_written') \<Rightarrow> Inr (uur', page' # pages)
      | (False, uur', page', already_written') \<Rightarrow>
          (case insert_record cfg uur' pages (SizeOfPageHeaderData cfg) already_written' of
             Inl e \<Rightarrow> Inl e
           | Inr (uur'', pages') \<Rightarrow> Inr (uur'', page' # pages')))"

text \<open>
  Modelled from the spec: decoding the Header section from the front of a byte list.
\<close>

definition header_of_bytes :: "codec_config \<Rightarrow> byte list \<Rightarrow> UndoRecordHeader \<times> byte list" where
  "header_of_bytes cfg bs =
     (let (ty, r1) = get_field cfg 1 bs;
          (info, r2) = get_field cfg 1 r1;
          (pl, r3) = get_field cfg 2 r2;
          (rfn, r4) = get_field cfg 4 r3;
          (pxid, r5) = get_field cfg 4 r4;
          (x, r6) = get_field cfg 4 r5;
          (cid, r7) = get_field cfg 4 r6
      in (\<lparr>urec_type = ty, urec_info = info, urec_prevlen = pl, urec_relfilenode = rfn,
           urec_prevxid = pxid, urec_xid = x, urec_cid = cid\<rparr>, r7))"

text \<open>
  Modelled from the spec: decoding the RelationDetails section.
\<close>

definition relation_details_of_bytes :: "codec_config \<Rightarrow> byte list
    \<Rightarrow> UndoRecordRelationDetails \<times> byte list" where
  "relation_details_of_bytes cfg bs =
     (let (tsid, r1) = get_field cfg 4 bs;
          (fork, r2) = (get_field cfg 1 r1 :: uint8 \<times> byte list)
      in (\<lparr>urec_tsid = tsid, urec_fork = uint fork\<rparr>, r2))"

text \<open>
  Modelled from the spec: decoding the Block section.
\<close>

definition block_of_bytes :: "codec_config \<Rightarrow> byte list \<Rightarrow> UndoRecordBlock \<times> byte list" where
  "block_of_bytes cfg bs =
     (let (blkprev, r1) = get_field cfg 8 bs;
          (block, r2) = get_field cfg 4 r1;
          (off, r3) = get_field cfg 2 r2
      in (\<lparr>urec_blkprev = blkprev, urec_block = block, urec_offset = off\<rparr>, r3))"

text \<open>
  Modelled from the spec: decoding the Transaction section.
\<close>

definition transaction_of_bytes :: "codec_config \<Rightarrow> byte list
    \<Rightarrow> UndoRecordTransaction \<times> byte list" where
  "transaction_of_bytes cfg bs =
     (let (epoch, r1) = get_field cfg 4 bs;
          (next, r2) = get_field cfg 8 (drop (transaction_padding cfg) r1)
      in (\<lparr>urec_xidepoch = epoch, urec_next = next\<rparr>, r2))"

text \<open>
  Modelled from the spec: decoding the Payload sizes section.
\<close>

definition payload_of_bytes :: "codec_config \<Rightarrow> byte list \<Rightarrow> UndoRecordPayload \<times> byte list" where
  "payload_of_bytes cfg bs =
     (let (plen, r1) = get_field cfg 2 bs;
          (tlen, r2) = get_field cfg 2 r1
      in (\<lparr>urec_payload_len = plen, urec_tuple_len = tlen\<rparr>, r2))"

text \<open>
  Modelled from the spec: the decoder of section 4.2 reads the header first, then the optional
  sections that the flags select, in their fixed order; an absent section yields the
  default values.
\<close>

definition unpack_sections :: "codec_config \<Rightarrow> byte list
    \<Rightarrow> UndoRecordHeader \<times> UndoRecordRelationDetails \<times> UndoRecordBlock
        \<times> UndoRecordTransaction \<times> UndoRecordPayload \<times> byte list" where
  "unpack_sections cfg bs =
     (let (h, r0) = header_of_bytes cfg bs;
          (rd, r1) = (if has_info (urec_info h) UREC_INFO_RELATION_DETAILS
                      then relation_details_of_bytes cfg r0
                      else (\<lparr>urec_tsid = DEFAULTTABLESPACE_OID cfg,
                              urec_fork = MAIN_FORKNUM cfg\<rparr>, r0));
          (b, r2) = (if has_info (urec_info h) UREC_INFO_BLOCK
                     then block_of_bytes cfg r1
                     else (\<lparr>urec_blkprev = InvalidUndoRecPtr,
                             urec_block = InvalidBlockNumber cfg,
                             urec_offset = InvalidOffsetNumber cfg\<rparr>, r1));
          (t, r3) = (if has_info (urec_info h) UREC_INFO_TRANSACTION
                     then transaction_of_bytes cfg r2
                     else (\<lparr>urec_xidepoch = 0, urec_next = InvalidUndoRecPtr\<rparr>, r2));
          (p, r4) = (if has_info (urec_info h) UREC_INFO_PAYLOAD
                     then payload_of_bytes cfg r3
                     else (\<lparr>urec_payload_len = 0, urec_tuple_len = 0\<rparr>, r3))
      in (h, rd, b, t, p, r4))"

text \<open>
  Modelled from the spec: the unpacked record the decoder fills in from the bytes of a record: the
  fields of the sections, then \<open>payload_len\<close> payload bytes and \<open>tuple_len\<close> tuple bytes.
  \<^verbatim>\<open>uur_buffer\<close>, which is not part of the serialized form, is left as the caller passed it.
\<close>

definition unpack_fields :: "codec_config \<Rightarrow> UnpackedUndoRecord \<Rightarrow> byte list \<Rightarrow> UnpackedUndoRecord" where
  "unpack_fields cfg uur bs =
     (case unpack_sections cfg bs of (h, rd, b, t, p, rest) \<Rightarrow>
        uur\<lparr>uur_type := urec_type h, uur_info := urec_info h, uur_prevlen := urec_prevlen h,
            uur_relfilenode := urec_relfilenode h, uur_prevxid := urec_prevxid h,
            uur_xid := urec_xid h, uur_cid := urec_cid h,
            uur_tsid := urec_tsid rd, uur_fork := urec_fork rd,
            uur_blkprev := urec_blkprev b, uur_block := urec_block b,
            uur_offset := urec_offset b,
            uur_xidepoch := urec_xidepoch t, uur_next := urec_next t,
            uur_payload := take (unat (urec_payload_len p)) rest,
            uur_tuple := take (unat (urec_tuple_len p)) (drop (unat (urec_payload_len p)) rest)\<rparr>)"

text \<open>
  Modelled from the spec: the length of a record, known once its fixed part is decoded.
\<close>

definition total_size :: "codec_config \<Rightarrow> byte list \<Rightarrow> nat" where
  "total_size cfg bs =
     (case unpack_sections cfg bs of (h, rd, b, t, p, rest) \<Rightarrow>
        fixed_size cfg (urec_info h) + unat (urec_payload_len p) + unat (urec_tuple_len p))"

text \<open>
  Modelled from the spec: reading from a page into the work area until the work area holds
  \<open>target\<close> bytes or the page ends.
\<close>

definition read_bytes :: "codec_config \<Rightarrow> nat \<Rightarrow> Page \<Rightarrow> byte list \<times> nat \<Rightarrow> byte list \<times> nat" where
  "read_bytes cfg target page cur =
     (case cur of (work, readptr) \<Rightarrow>
        let can_read = min (target - length work) (PAGE_SIZE cfg - readptr)
        in (work @ take can_read (drop readptr page), readptr + can_read))"

text \<open>
  Modelled from the spec: \<open>unpack_record\<close> of section 4.2 (\<^verbatim>\<open>UnpackUndoRecord\<close> is only declared
  in the header). The bytes decoded by earlier calls are kept in the work area, whose
  length is the cursor \<open>already_decoded\<close> of the C interface. A call reads the header, then
  the optional structures, then the payload and tuple bytes, as far as the page reaches;
  a type code outside the enumeration is a corrupt record.
\<close>

definition UnpackUndoRecord :: "codec_config \<Rightarrow> UnpackedUndoRecord \<Rightarrow> Page \<Rightarrow> nat \<Rightarrow> byte list
    \<Rightarrow> codec_error + bool \<times> UnpackedUndoRecord \<times> byte list" where
  "UnpackUndoRecord cfg uur page starting_byte work =
     (let hsz = SizeOfUndoRecordHeader (uint64_align cfg);
          (w1, rp1) = read_bytes cfg hsz page (work, starting_byte)
      in if length w1 < hsz then Inr (False, uur, w1)
         else
           let h = fst (header_of_bytes cfg w1) in
           if undorectype_code UNDO_INVALID_XACT_SLOT < urec_type h then Inl CorruptRecord
           else
             let (w2, rp2) = read_bytes cfg (fixed_size cfg (urec_info h)) page (w1, rp1)
             in if length w2 < fixed_size cfg (urec_info h) then Inr (False, uur, w2)
                else
                  let (w3, rp3) = read_bytes cfg (total_size cfg w2) page (w2, rp2)
                  in if length w3 < total_size cfg w2 then Inr (False, uur, w3)
                     else Inr (True, unpack_fields cfg uur w3, w3))"

text \<open>
  Modelled from the spec: the caller's loop of section 4.2 over successive pages, from an empty
  work area.
\<close>

fun unpack_record :: "codec_config \<Rightarrow> UnpackedUndoRecord \<Rightarrow> Page list \<Rightarrow> nat \<Rightarrow> byte list
    \<Rightarrow> codec_error + UnpackedUndoRecord" where
  "unpack_record cfg uur [] starting_byte work = Inl OutOfPages"
| "unpack_record cfg uur (page # pages) starting_byte work =
     (case UnpackUndoRecord cfg uur page starting_byte work of
        Inl e \<Rightarrow> Inl e
      | Inr (True, uur', work') \<Rightarrow> Inr uur'
      | Inr (False, uur', work') \<Rightarrow>
          unpack_record cfg uur' pages (SizeOfPageHeaderData cfg) work')"

text \<open>
  Modelled from the spec: the canonical serialization of a record: its sections one after the
  other, with nothing between them.
\<close>

definition record_image :: "codec_config \<Rightarrow> UnpackedUndoRecord \<Rightarrow> byte list" where
  "record_image cfg uur = concat (record_sections cfg uur)"

text \<open>
  Modelled from the spec: the bytes of a sequence of pages in which a record can lie: the first
  page from the starting byte, every later page from the end of its page header.
\<close>

fun page_stream :: "codec_config \<Rightarrow> nat \<Rightarrow> Page list \<Rightarrow> byte list" where
  "page_stream cfg starting_byte [] = []"
| "page_stream cfg starting_byte (page # pages) =
     drop starting_byte page @ page_stream cfg (SizeOfPageHeaderData cfg) pages"

text \<open>
  Modelled from the spec: what one call of \<open>insert_record\<close> does in terms of the canonical
  serialization: it copies the next bytes of it that fit in the page.
\<close>

definition insert_result :: "codec_config \<Rightarrow> byte list \<Rightarrow> insert_cursor \<Rightarrow> bool \<times> Page \<times> nat" where
  "insert_result cfg bytes cur =
     (case cur of (page, writeptr, skip, tot) \<Rightarrow>
        let n = min (length bytes - skip) (PAGE_SIZE cfg - writeptr)
        in (n = length bytes - skip,
            take writeptr page @ take n (drop skip bytes) @ drop (writeptr + n) page,
            tot + n))"

text \<open>
  Modelled from the spec: a valid unpacked record to serialize: \<^verbatim>\<open>uur_info\<close> is 0, the type is one
  of the enumeration, the fork number fits its byte and the payload and tuple lengths
  fit their 16-bit fields.
\<close>

definition valid_record :: "UnpackedUndoRecord \<Rightarrow> bool" where
  "valid_record uur \<longleftrightarrow>
     uur_info uur = 0
     \<and> uur_type uur \<le> undorectype_code UNDO_INVALID_XACT_SLOT
     \<and> 0 \<le> uur_fork uur \<and> uur_fork uur < 256
     \<and> length (uur_payload uur) < 65536
     \<and> length (uur_tuple uur) < 65536"

text \<open>
  Modelled from the spec: the serialized header and optional structures of a record.
\<close>

definition fixed_image :: "codec_config \<Rightarrow> UnpackedUndoRecord \<Rightarrow> byte list" where
  "fixed_image cfg uur =
     header_bytes cfg (work_hdr uur)
     @ (if has_info (uur_info uur) UREC_INFO_RELATION_DETAILS
        then relation_details_bytes cfg (work_rd uur) else [])
     @ (if has_info (uur_info uur) UREC_INFO_BLOCK then block_bytes cfg (work_blk uur) else [])
     @ (if has_info (uur_info uur) UREC_INFO_TRANSACTION
        then transaction_bytes cfg (work_txn uur) else [])
     @ (if has_info (uur_info uur) UREC_INFO_PAYLOAD
        then payload_bytes cfg (work_payload uur) else [])"

text \<open>
  Modelled from the spec: the structures the decoder obtains from a serialized record.
\<close>

definition unpacked_sections :: "codec_config \<Rightarrow> UnpackedUndoRecord
    \<Rightarrow> UndoRecordHeader \<times> UndoRecordRelationDetails \<times> UndoRecordBlock
        \<times> UndoRecordTransaction \<times> UndoRecordPayload" where
  "unpacked_sections cfg uur =
     (work_hdr uur,
      (if has_info (uur_info uur) UREC_INFO_RELATION_DETAILS then work_rd uur
       else \<lparr>urec_tsid = DEFAULTTABLESPACE_OID cfg, urec_fork = MAIN_FORKNUM cfg\<rparr>),
      (if has_info (uur_info uur) UREC_INFO_BLOCK then work_blk uur
       else \<lparr>urec_blkprev = InvalidUndoRecPtr, urec_block = InvalidBlockNumber cfg,
              urec_offset = InvalidOffsetNumber cfg\<rparr>),
      (if has_info (uur_info uur) UREC_INFO_TRANSACTION then work_txn uur
       else \<lparr>urec_xidepoch = 0, urec_next = InvalidUndoRecPtr\<rparr>),
      (if has_info (uur_info uur) UREC_INFO_PAYLOAD then work_payload uur
       else \<lparr>urec_payload_len = 0, urec_tuple_len = 0\<rparr>))"

text \<open>
  Modelled from the spec: a platform with small pages for the examples: blocks of 32 bytes with a
  page header of 8 bytes, 8-byte alignment of \<^verbatim>\<open>uint64\<close>, little-endian.
\<close>

definition example_codec :: codec_config where
  "example_codec = \<lparr>PAGE_SIZE = 32, SizeOfPageHeaderData = 8, uint64_align = 8,
     big_endian = False, DEFAULTTABLESPACE_OID = 1663, MAIN_FORKNUM = 0,
     InvalidBlockNumber = 0xFFFFFFFF, InvalidOffsetNumber = 0\<rparr>"

text \<open>
  Modelled from the spec: a record with a Transaction section and payload, of 43 bytes.
\<close>

definition example_record :: UnpackedUndoRecord where
  "example_record = \<lparr>uur_type = 2, uur_info = 0, uur_prevlen = 40, uur_relfilenode = 7,
     uur_prevxid = 5, uur_xid = 6, uur_cid = 1, uur_tsid = 1663, uur_fork = 0,
     uur_blkprev = 0, uur_block = 0xFFFFFFFF, uur_offset = 0, uur_buffer = 3,
     uur_xidepoch = 0, uur_next = 258, uur_payload = [1, 2], uur_tuple = [3]\<rparr>"

text \<open>
  Modelled from the spec: a page of 32 zero bytes.
\<close>

definition blank_page :: Page where
  "blank_page = [0, 0, 0, 0, 0, 0, 0, 0, 0, 0, 0, 0, 0, 0, 0, 0,
                 0, 0, 0, 0, 0, 0, 0, 0, 0, 0, 0, 0, 0, 0, 0, 0]"

text \<open>
  Modelled from the spec: the record a decoder starts from.
\<close>

definition example_target :: UnpackedUndoRecord where
  "example_target = \<lparr>uur_type = 0, uur_info = 0, uur_prevlen = 0, uur_relfilenode = 0,
     uur_prevxid = 0, uur_xid = 0, uur_cid = 0, uur_tsid = 0, uur_fork = 0,
     uur_blkprev = 0, uur_block = 0, uur_offset = 0, uur_buffer = 0,
     uur_xidepoch = 0, uur_next = 0, uur_payload = [], uur_tuple = []\<rparr>"

text \<open>
  Modelled from the spec: three blank pages after the example record was inserted at byte 20 of
  the first.
\<close>

definition example_pages :: "Page list" where
  "example_pages =
     [[0, 0, 0, 0, 0, 0, 0, 0, 0, 0, 0, 0, 0, 0, 0, 0, 0, 0, 0, 0,
       2, 12, 40, 0, 7, 0, 0, 0, 5, 0, 0, 0],
      [0, 0, 0, 0, 0, 0, 0, 0, 6, 0, 0, 0, 1, 0, 0, 0,
       0, 0, 0, 0, 0, 0, 0, 0, 2, 1, 0, 0, 0, 0, 0, 0],
      [0, 0, 0, 0, 0, 0, 0, 0, 2, 0, 1, 0, 1, 2, 3, 0,
       0, 0, 0, 0, 0, 0, 0, 0, 0, 0, 0, 0, 0, 0, 0, 0]]"

subsection \<open>Sizes and flags\<close>

lemma length_le_bytes [simp]: "length (le_bytes k v) = k"
  by (induction k arbitrary: v) simp_all

lemma le_value_le_bytes: "v < 256 ^ k \<Longrightarrow> le_value (le_bytes k v) = v"
proof (induction k arbitrary: v)
  case 0
  then show ?case by simp
next
  case (Suc k)
  have "v div 256 < 256 ^ k" using Suc.prems by (simp add: less_mult_imp_div_less mult.commute)
  then have "le_value (le_bytes k (v div 256)) = v div 256" by (rule Suc.IH)
  moreover have "unat (of_nat (v mod 256) :: byte) = v mod 256"
    by (simp add: unat_of_nat)
  ultimately show ?case by simp
qed

lemma length_host_bytes [simp]: "length (host_bytes cfg k v) = k"
  by (simp add: host_bytes_def)

lemma host_value_host_bytes: "v < 256 ^ k \<Longrightarrow> host_value cfg (host_bytes cfg k v) = v"
  by (simp add: host_value_def host_bytes_def le_value_le_bytes)

lemma length_put_field [simp]: "length (put_field cfg k w) = k"
  by (simp add: put_field_def)

lemma get_put_field:
  fixes w :: "'a::len word"
  assumes "LENGTH('a) = 8 * k"
  shows "get_field cfg k (put_field cfg k w @ rest) = (w, rest)"
proof -
  have "unat w < 2 ^ LENGTH('a)" by simp
  then have "unat w < 256 ^ k" using assms by (simp add: power_mult)
  then show ?thesis by (simp add: get_field_def put_field_def host_value_host_bytes)
qed

lemma length_header_bytes: "length (header_bytes cfg h) = SizeOfUndoRecordHeader a64"
  by (simp add: header_bytes_def SizeOfUndoRecordHeader_eq)

lemma length_relation_details_bytes:
  "length (relation_details_bytes cfg rd) = SizeOfUndoRecordRelationDetails a64"
  by (simp add: relation_details_bytes_def SizeOfUndoRecordRelationDetails_eq)

lemma length_block_bytes: "length (block_bytes cfg b) = SizeOfUndoRecordBlock a64"
  by (simp add: block_bytes_def SizeOfUndoRecordBlock_eq)

lemma align_up_ge: "n \<le> align_up a n"
  by (simp add: align_up_def)

lemma transaction_padding_eq: "transaction_padding cfg = align_up (uint64_align cfg) 4 - 4"
  by (simp add: transaction_padding_def layout_defs)

lemma length_transaction_bytes:
  "length (transaction_bytes cfg t) = SizeOfUndoRecordTransaction (uint64_align cfg)"
  using align_up_ge [of 4 "uint64_align cfg"]
  by (simp add: transaction_bytes_def transaction_padding_eq SizeOfUndoRecordTransaction_eq)

lemma length_payload_bytes: "length (payload_bytes cfg p) = SizeOfUndoRecordPayload a64"
  by (simp add: payload_bytes_def SizeOfUndoRecordPayload_eq)

lemma drop_splice:
  "length a = i \<Longrightarrow> length c = j \<Longrightarrow> drop (i + j + k) (a @ c @ d) = drop k d"
  by simp

lemma take_splice:
  "length a = i \<Longrightarrow> length c = j \<Longrightarrow> take (i + j) (a @ c @ d) = a @ c"
  by simp

lemma min_after_chunk:
  fixes skip can ls lc B wp :: nat
  assumes "skip + can = ls" "can \<le> B - wp"
  shows "min (ls + lc - skip) (B - wp) = can + min lc (B - (wp + can))"
  using assms by (auto simp add: min_def)

lemma all_after_chunk:
  fixes skip can ls lc n2 :: nat
  assumes "skip + can = ls"
  shows "(n2 = lc) \<longleftrightarrow> (can + n2 = ls + lc - skip)"
  using assms by auto

lemma insert_sections_result:
  assumes "writeptr \<le> length page" "length page = PAGE_SIZE cfg"
    and "skip \<le> length (concat ss)"
  shows "(case insert_sections cfg ss (page, writeptr, skip, tot) of
           (done, (page', writeptr', skip', tot')) \<Rightarrow> (done, page', tot'))
         = insert_result cfg (concat ss) (page, writeptr, skip, tot)"
  using assms
proof (induction ss arbitrary: page writeptr skip tot)
  case Nil
  then show ?case by (simp add: insert_result_def)
next
  case (Cons s ss)
  let ?B = "PAGE_SIZE cfg"
  show ?case
  proof (cases "length s \<le> skip")
    case True
    have sk: "skip - length s \<le> length (concat ss)" using Cons.prems(3) True by simp
    have ib: "insert_bytes cfg s (page, writeptr, skip, tot)
        = (True, (page, writeptr, skip - length s, tot))"
      using True by (simp add: insert_bytes_def)
    have "(case insert_sections cfg (s # ss) (page, writeptr, skip, tot) of
           (done, (page', writeptr', skip', tot')) \<Rightarrow> (done, page', tot'))
        = insert_result cfg (concat ss) (page, writeptr, skip - length s, tot)"
      using Cons.IH [OF Cons.prems(1,2) sk, of tot] by (simp add: ib)
    also have "\<dots> = insert_result cfg (concat (s # ss)) (page, writeptr, skip, tot)"
    proof -
      have "length (concat (s # ss)) - skip = length (concat ss) - (skip - length s)"
        using True by simp
      moreover have "drop skip (concat (s # ss)) = drop (skip - length s) (concat ss)"
        using True by simp
      ultimately show ?thesis by (simp add: insert_result_def Let_def del: concat.simps)
    qed
    finally show ?thesis .
  next
    case False
    define remaining where "remaining = length s - skip"
    define can_write where "can_write = min remaining (?B - writeptr)"
    have rem: "0 < remaining" using False by (simp add: remaining_def)
    show ?thesis
    proof (cases "can_write = 0")
      case True
      then have full: "?B - writeptr = 0" using rem by (simp add: can_write_def)
      have ib: "insert_bytes cfg s (page, writeptr, skip, tot)
          = (False, (page, writeptr, skip, tot))"
        using False True by (simp add: insert_bytes_def Let_def can_write_def remaining_def)
      have "insert_result cfg (concat (s # ss)) (page, writeptr, skip, tot)
          = (False, page, tot)"
        using full False by (simp add: insert_result_def Let_def)
      then show ?thesis by (simp add: ib)
    next
      case nz: False
      define page1 where "page1 = take writeptr page @ take can_write (drop skip s)
          @ drop (writeptr + can_write) page"
      have cw: "can_write \<le> ?B - writeptr" "can_write \<le> remaining"
        by (simp_all add: can_write_def)
      have lp1: "length page1 = ?B"
        using Cons.prems(1,2) cw by (simp add: page1_def remaining_def min_def)
      have ib: "insert_bytes cfg s (page, writeptr, skip, tot)
          = (can_write = remaining, (page1, writeptr + can_write, 0, tot + can_write))"
        using False nz
        by (simp add: insert_bytes_def Let_def can_write_def remaining_def page1_def)
      show ?thesis
      proof (cases "can_write = remaining")
        case False
        then have lt: "?B - writeptr < remaining" using cw by (simp add: can_write_def)
        then have n: "min (length (concat (s # ss)) - skip) (?B - writeptr) = can_write"
          by (simp add: can_write_def remaining_def)
        have tk: "take can_write (drop skip (concat (s # ss))) = take can_write (drop skip s)"
          using cw by (simp add: remaining_def)
        have ne: "can_write \<noteq> length (concat (s # ss)) - skip"
          using lt cw by (simp add: remaining_def)
        have "insert_result cfg (concat (s # ss)) (page, writeptr, skip, tot)
            = (False, page1, tot + can_write)"
          unfolding insert_result_def using n tk ne
          by (simp add: Let_def page1_def del: concat.simps)
        then show ?thesis using False by (simp add: ib)
      next
        case True
        have wp1: "writeptr + can_write \<le> length page1"
          using lp1 cw Cons.prems(1,2) by simp
        have "(case insert_sections cfg (s # ss) (page, writeptr, skip, tot) of
               (done, (page', writeptr', skip', tot')) \<Rightarrow> (done, page', tot'))
            = insert_result cfg (concat ss) (page1, writeptr + can_write, 0, tot + can_write)"
          using Cons.IH [OF wp1 lp1, of 0 "tot + can_write"] True by (simp add: ib)
        also have "\<dots> = insert_result cfg (concat (s # ss)) (page, writeptr, skip, tot)"
        proof -
          define n2 where "n2 = min (length (concat ss)) (?B - (writeptr + can_write))"
          have c1: "skip + can_write = length s"
            using True \<open>\<not> length s \<le> skip\<close> by (simp add: remaining_def)
          have lc: "length (concat (s # ss)) = length s + length (concat ss)" by simp
          have n: "min (length (concat (s # ss)) - skip) (?B - writeptr) = can_write + n2"
            unfolding lc n2_def using c1 cw(1) by (rule min_after_chunk)
          have lA: "length (take writeptr page) = writeptr" using Cons.prems(1) by simp
          have lC: "length (take can_write (drop skip s)) = can_write" using c1 by auto
          have fC: "take can_write (drop skip s) = drop skip s" using c1 by auto
          have "take (writeptr + can_write) page1
              = take writeptr page @ take can_write (drop skip s)"
            unfolding page1_def by (rule take_splice [OF lA lC])
          then have t1: "take (writeptr + can_write) page1 = take writeptr page @ drop skip s"
            by (simp only: fC)
          have "drop (writeptr + can_write + n2) page1
              = drop n2 (drop (writeptr + can_write) page)"
            unfolding page1_def by (rule drop_splice [OF lA lC])
          then have t2: "drop (writeptr + can_write + n2) page1
              = drop (writeptr + can_write + n2) page"
            by (simp add: ac_simps)
          have e: "can_write + n2 + skip - length s = n2" "can_write + n2 - (length s - skip) = n2"
            using c1 by arith+
          have t3: "take (can_write + n2) (drop skip (concat (s # ss)))
              = drop skip s @ take n2 (concat ss)"
            using c1 e by simp
          have d: "(n2 = length (concat ss))
              \<longleftrightarrow> (can_write + n2 = length (concat (s # ss)) - skip)"
            unfolding lc using c1 by (rule all_after_chunk)
          have L: "insert_result cfg (concat ss) (page1, writeptr + can_write, 0, tot + can_write)
              = (n2 = length (concat ss),
                 take (writeptr + can_write) page1 @ take n2 (concat ss)
                   @ drop (writeptr + can_write + n2) page1,
                 tot + can_write + n2)"
            by (simp add: insert_result_def Let_def n2_def)
          have R: "insert_result cfg (concat (s # ss)) (page, writeptr, skip, tot)
              = (can_write + n2 = length (concat (s # ss)) - skip,
                 take writeptr page @ take (can_write + n2) (drop skip (concat (s # ss)))
                   @ drop (writeptr + (can_write + n2)) page,
                 tot + (can_write + n2))"
            unfolding insert_result_def by (simp only: n prod.case Let_def)
          show ?thesis unfolding L R t1 t2 t3 d by (simp add: add.assoc)
        qed
        finally show ?thesis .
      qed
    qed
  qed
qed

lemma info_bits_uur_info [simp]: "info_bits cfg (uur\<lparr>uur_info := x\<rparr>) = info_bits cfg uur"
  by (simp add: info_bits_def)

lemma UndoRecordSetInfo_idem [simp]:
  "UndoRecordSetInfo cfg (UndoRecordSetInfo cfg uur) = UndoRecordSetInfo cfg uur"
  by (simp add: UndoRecordSetInfo_def or.assoc)

lemma InsertUndoRecord_result:
  assumes "starting_byte \<le> length page" "length page = PAGE_SIZE cfg"
    and "already_written \<le> length (record_image cfg (UndoRecordSetInfo cfg uur))"
  shows "InsertUndoRecord cfg uur page starting_byte already_written =
     (case insert_result cfg (record_image cfg (UndoRecordSetInfo cfg uur))
             (page, starting_byte, already_written, already_written) of
        (done, page', already_written') \<Rightarrow>
          (done, UndoRecordSetInfo cfg uur, page', already_written'))"
proof -
  let ?ss = "record_sections cfg (UndoRecordSetInfo cfg uur)"
  obtain fin page' wp sk tot where
    r: "insert_sections cfg ?ss (page, starting_byte, already_written, already_written)
        = (fin, (page', wp, sk, tot))"
    by (metis prod_cases5)
  have "insert_result cfg (concat ?ss)
      (page, starting_byte, already_written, already_written) = (fin, page', tot)"
    using insert_sections_result [OF assms(1,2), of already_written ?ss already_written]
      assms(3) r by (simp add: record_image_def)
  then show ?thesis
    by (simp add: InsertUndoRecord_def Let_def r record_image_def split: prod.splits)
qed

lemma insert_record_stream:
  assumes "\<forall>p \<in> set pages. length p = PAGE_SIZE cfg"
    and "starting_byte \<le> PAGE_SIZE cfg"
    and "SizeOfPageHeaderData cfg < PAGE_SIZE cfg"
    and "already_written \<le> length (record_image cfg (UndoRecordSetInfo cfg uur))"
    and "pages \<noteq> []"
    and "length (record_image cfg (UndoRecordSetInfo cfg uur)) - already_written
         \<le> (PAGE_SIZE cfg - starting_byte)
           + (length pages - 1) * (PAGE_SIZE cfg - SizeOfPageHeaderData cfg)"
  shows "\<exists>pages'. insert_record cfg uur pages starting_byte already_written
            = Inr (UndoRecordSetInfo cfg uur, pages')
         \<and> length pages' = length pages
         \<and> (\<forall>p \<in> set pages'. length p = PAGE_SIZE cfg)
         \<and> take (length (record_image cfg (UndoRecordSetInfo cfg uur)) - already_written)
              (page_stream cfg starting_byte pages')
            = drop already_written (record_image cfg (UndoRecordSetInfo cfg uur))"
  using assms
proof (induction pages arbitrary: uur starting_byte already_written)
  case Nil
  then show ?case by simp
next
  case (Cons p ps)
  let ?B = "PAGE_SIZE cfg" and ?H = "SizeOfPageHeaderData cfg"
  let ?u = "UndoRecordSetInfo cfg uur"
  let ?img = "record_image cfg ?u"
  let ?L = "length ?img"
  define n where "n = min (?L - already_written) (?B - starting_byte)"
  define p' where "p' = take starting_byte p @ take n (drop already_written ?img)
      @ drop (starting_byte + n) p"
  have lp: "length p = ?B" using Cons.prems(1) by simp
  have sb: "starting_byte \<le> length p" using Cons.prems(2) lp by simp
  have iur: "InsertUndoRecord cfg uur p starting_byte already_written
      = (n = ?L - already_written, ?u, p', already_written + n)"
    using InsertUndoRecord_result [OF sb lp Cons.prems(4)]
    by (simp add: insert_result_def Let_def n_def p'_def)
  have nle: "n \<le> ?B - starting_byte" "n \<le> ?L - already_written" by (simp_all add: n_def)
  have lp': "length p' = ?B"
    using lp sb nle by (simp add: p'_def min_def)
  have ltk: "length (take n (drop already_written ?img)) = n" using nle by simp
  have dsp: "drop starting_byte p' = take n (drop already_written ?img) @ drop (starting_byte + n) p"
    using sb by (simp add: p'_def)
  show ?case
  proof (cases "n = ?L - already_written")
    case True
    have "take (?L - already_written) (page_stream cfg starting_byte (p' # ps))
        = drop already_written ?img"
      using True ltk by (simp add: dsp)
    then show ?thesis using True lp' Cons.prems(1) by (simp add: iur)
  next
    case False
    then have nB: "n = ?B - starting_byte" and lt: "n < ?L - already_written"
      using nle by (auto simp add: n_def)
    have aw': "already_written + n \<le> length (record_image cfg (UndoRecordSetInfo cfg ?u))"
      using lt by simp
    have cap: "?L - already_written - n \<le> length ps * (?B - ?H)"
      using Cons.prems(6) nB by simp
    then have ne: "ps \<noteq> []" using lt by auto
    have cap': "length (record_image cfg (UndoRecordSetInfo cfg ?u)) - (already_written + n)
        \<le> (?B - ?H) + (length ps - 1) * (?B - ?H)"
    proof -
      have "length ps * (?B - ?H) = (?B - ?H) + (length ps - 1) * (?B - ?H)"
        using ne by (cases ps) simp_all
      then show ?thesis using cap by simp
    qed
    have allps: "\<forall>q \<in> set ps. length q = ?B" using Cons.prems(1) by simp
    have hB: "?H \<le> ?B" using Cons.prems(3) by simp
    from Cons.IH [OF allps hB Cons.prems(3) aw' ne cap']
    obtain ps' where ih: "insert_record cfg ?u ps ?H (already_written + n) = Inr (?u, ps')"
      "length ps' = length ps" "\<forall>q \<in> set ps'. length q = ?B"
      "take (?L - (already_written + n)) (page_stream cfg ?H ps')
        = drop (already_written + n) ?img"
      by auto
    have full: "drop (starting_byte + n) p = []" using nB lp Cons.prems(2) by simp
    have "take (?L - already_written) (page_stream cfg starting_byte (p' # ps'))
        = take n (drop already_written ?img)
          @ take (?L - already_written - n) (page_stream cfg ?H ps')"
      using ltk nle by (simp add: dsp full)
    also have "\<dots> = take n (drop already_written ?img) @ drop n (drop already_written ?img)"
      using ih(4) by (simp add: add.commute)
    also have "\<dots> = drop already_written ?img" by (rule append_take_drop_id)
    finally have st: "take (?L - already_written) (page_stream cfg starting_byte (p' # ps'))
        = drop already_written ?img" .
    show ?thesis using False ih(1,2,3) lp' st by (simp add: iur)
  qed
qed

lemma record_image_split:
  "record_image cfg uur = fixed_image cfg uur
     @ (if has_info (uur_info uur) UREC_INFO_PAYLOAD then uur_payload uur @ uur_tuple uur else [])"
  by (simp add: record_image_def record_sections_def fixed_image_def)

lemma length_fixed_image: "length (fixed_image cfg uur) = fixed_size cfg (uur_info uur)"
  by (simp add: fixed_image_def fixed_size_def length_header_bytes [where ?a64.0 = "uint64_align cfg"]
      length_relation_details_bytes [where ?a64.0 = "uint64_align cfg"]
      length_block_bytes [where ?a64.0 = "uint64_align cfg"] length_transaction_bytes
      length_payload_bytes [where ?a64.0 = "uint64_align cfg"])

lemma header_of_header_bytes:
  "header_of_bytes cfg (header_bytes cfg h @ rest) = (h, rest)"
  by (simp add: header_of_bytes_def header_bytes_def get_put_field)

lemma relation_details_of_relation_details_bytes:
  assumes "0 \<le> urec_fork rd" "urec_fork rd < 256"
  shows "relation_details_of_bytes cfg (relation_details_bytes cfg rd @ rest) = (rd, rest)"
proof -
  have "uint (word_of_int (urec_fork rd) :: uint8) = urec_fork rd"
    using assms by (simp add: uint_word_of_int take_bit_int_eq_self)
  then show ?thesis
    by (simp add: relation_details_of_bytes_def relation_details_bytes_def get_put_field)
qed

lemma block_of_block_bytes: "block_of_bytes cfg (block_bytes cfg b @ rest) = (b, rest)"
  by (simp add: block_of_bytes_def block_bytes_def get_put_field)

lemma transaction_of_transaction_bytes:
  "transaction_of_bytes cfg (transaction_bytes cfg t @ rest) = (t, rest)"
  by (simp add: transaction_of_bytes_def transaction_bytes_def get_put_field)

lemma payload_of_payload_bytes: "payload_of_bytes cfg (payload_bytes cfg p @ rest) = (p, rest)"
  by (simp add: payload_of_bytes_def payload_bytes_def get_put_field)

lemmas urec_info_defs = UREC_INFO_RELATION_DETAILS_def UREC_INFO_BLOCK_def
  UREC_INFO_PAYLOAD_def UREC_INFO_TRANSACTION_def

lemma has_info_bits:
  "has_info (info_bits cfg uur) UREC_INFO_RELATION_DETAILS
     \<longleftrightarrow> uur_tsid uur \<noteq> DEFAULTTABLESPACE_OID cfg \<or> uur_fork uur \<noteq> MAIN_FORKNUM cfg"
  "has_info (info_bits cfg uur) UREC_INFO_BLOCK
     \<longleftrightarrow> uur_blkprev uur \<noteq> InvalidUndoRecPtr \<or> uur_block uur \<noteq> InvalidBlockNumber cfg
         \<or> uur_offset uur \<noteq> InvalidOffsetNumber cfg"
  "has_info (info_bits cfg uur) UREC_INFO_TRANSACTION
     \<longleftrightarrow> uur_xidepoch uur \<noteq> 0 \<or> uur_next uur \<noteq> InvalidUndoRecPtr"
  "has_info (info_bits cfg uur) UREC_INFO_PAYLOAD
     \<longleftrightarrow> uur_payload uur \<noteq> [] \<or> uur_tuple uur \<noteq> []"
  by (simp_all add: has_info_def info_bits_def urec_info_defs)

lemma unpack_sections_fixed_image:
  assumes "0 \<le> uur_fork uur" "uur_fork uur < 256"
  shows "unpack_sections cfg (fixed_image cfg uur @ rest)
     = (case unpacked_sections cfg uur of (h, rd, b, t, p) \<Rightarrow> (h, rd, b, t, p, rest))"
proof -
  have rd: "relation_details_of_bytes cfg (relation_details_bytes cfg (work_rd uur) @ r)
      = (work_rd uur, r)" for r
    by (rule relation_details_of_relation_details_bytes) (simp_all add: work_rd_def assms)
  have i: "urec_info (work_hdr uur) = uur_info uur" by (simp add: work_hdr_def)
  show ?thesis
    by (simp add: unpack_sections_def fixed_image_def unpacked_sections_def
        header_of_header_bytes rd block_of_block_bytes transaction_of_transaction_bytes
        payload_of_payload_bytes i)
qed

lemma unat_of_nat_uint16:
  assumes "n < 65536"
  shows "unat (of_nat n :: uint16) = n"
  using assms by (simp add: unat_of_nat)

lemma unpacked_sections_valid:
  assumes v: "valid_record uur"
  shows "unpacked_sections cfg (UndoRecordSetInfo cfg uur)
     = (work_hdr (UndoRecordSetInfo cfg uur), work_rd uur, work_blk uur, work_txn uur,
        work_payload uur)"
proof -
  have info: "uur_info (UndoRecordSetInfo cfg uur) = info_bits cfg uur"
    using v by (simp add: UndoRecordSetInfo_def valid_record_def)
  have w: "work_rd (UndoRecordSetInfo cfg uur) = work_rd uur"
    "work_blk (UndoRecordSetInfo cfg uur) = work_blk uur"
    "work_txn (UndoRecordSetInfo cfg uur) = work_txn uur"
    "work_payload (UndoRecordSetInfo cfg uur) = work_payload uur"
    by (simp_all add: UndoRecordSetInfo_def work_rd_def work_blk_def work_txn_def
        work_payload_def)
  have rd: "(if has_info (info_bits cfg uur) UREC_INFO_RELATION_DETAILS then work_rd uur
       else \<lparr>urec_tsid = DEFAULTTABLESPACE_OID cfg, urec_fork = MAIN_FORKNUM cfg\<rparr>)
      = work_rd uur"
    by (simp add: has_info_bits work_rd_def)
  have blk: "(if has_info (info_bits cfg uur) UREC_INFO_BLOCK then work_blk uur
       else \<lparr>urec_blkprev = InvalidUndoRecPtr, urec_block = InvalidBlockNumber cfg,
              urec_offset = InvalidOffsetNumber cfg\<rparr>) = work_blk uur"
    by (simp add: has_info_bits work_blk_def)
  have txn: "(if has_info (info_bits cfg uur) UREC_INFO_TRANSACTION then work_txn uur
       else \<lparr>urec_xidepoch = 0, urec_next = InvalidUndoRecPtr\<rparr>) = work_txn uur"
    by (simp add: has_info_bits work_txn_def)
  have pay: "(if has_info (info_bits cfg uur) UREC_INFO_PAYLOAD then work_payload uur
       else \<lparr>urec_payload_len = 0, urec_tuple_len = 0\<rparr>) = work_payload uur"
    by (simp add: has_info_bits work_payload_def)
  show ?thesis
    unfolding unpacked_sections_def info w rd blk txn pay ..
qed

lemma unpack_fields_record_image:
  assumes v: "valid_record uur"
  shows "unpack_fields cfg target (record_image cfg (UndoRecordSetInfo cfg uur))
     = (UndoRecordSetInfo cfg uur)\<lparr>uur_buffer := uur_buffer target\<rparr>"
proof -
  let ?u = "UndoRecordSetInfo cfg uur"
  let ?rest = "if has_info (uur_info ?u) UREC_INFO_PAYLOAD
      then uur_payload ?u @ uur_tuple ?u else []"
  have info: "uur_info ?u = info_bits cfg uur"
    using v by (simp add: UndoRecordSetInfo_def valid_record_def)
  have f: "0 \<le> uur_fork ?u" "uur_fork ?u < 256"
    using v by (simp_all add: UndoRecordSetInfo_def valid_record_def)
  have pl: "unat (urec_payload_len (work_payload uur)) = length (uur_payload uur)"
    and tl: "unat (urec_tuple_len (work_payload uur)) = length (uur_tuple uur)"
    using v by (simp_all add: valid_record_def unat_of_nat_uint16 work_payload_def)
  have us: "unpack_sections cfg (record_image cfg ?u)
      = (work_hdr ?u, work_rd uur, work_blk uur, work_txn uur, work_payload uur, ?rest)"
    unfolding record_image_split
    by (simp add: unpack_sections_fixed_image [OF f] unpacked_sections_valid [OF v])
  have pu: "uur_payload ?u = uur_payload uur" "uur_tuple ?u = uur_tuple uur"
    by (simp_all add: UndoRecordSetInfo_def)
  have rest_p: "take (length (uur_payload uur)) ?rest = uur_payload uur"
    and rest_t: "take (length (uur_tuple uur)) (drop (length (uur_payload uur)) ?rest)
      = uur_tuple uur"
    unfolding info pu by (auto simp add: has_info_bits)
  show ?thesis
    unfolding unpack_fields_def us prod.case pl tl rest_p rest_t
    by (rule UnpackedUndoRecord.equality)
      (simp_all add: work_hdr_def work_rd_def work_blk_def work_txn_def UndoRecordSetInfo_def)
qed

lemma read_bytes_take:
  assumes "m \<le> length S" "drop rp page = drop m S" "length page = PAGE_SIZE cfg"
    and "rp \<le> PAGE_SIZE cfg"
  shows "\<exists>rp'. read_bytes cfg t page (take m S, rp) = (take (min (max m t) (length S)) S, rp')
           \<and> drop rp' page = drop (min (max m t) (length S)) S \<and> rp' \<le> PAGE_SIZE cfg"
proof -
  let ?B = "PAGE_SIZE cfg"
  define can where "can = min (t - m) (?B - rp)"
  have "length (drop rp page) = length (drop m S)" using assms(2) by simp
  then have room: "?B - rp = length S - m" using assms(3) by simp
  have m': "m + can = min (max m t) (length S)"
    using assms(1) room by (auto simp add: can_def min_def max_def)
  have "take m S @ take can (drop rp page) = take (m + can) S"
    using assms(2) by (simp add: take_add)
  moreover have "drop (rp + can) page = drop (m + can) S"
    using assms(2) by (metis add.commute drop_drop)
  moreover have "rp + can \<le> ?B" using assms(4) by (simp add: can_def)
  moreover have "read_bytes cfg t page (take m S, rp)
      = (take m S @ take can (drop rp page), rp + can)"
    using assms(1) by (simp add: read_bytes_def Let_def can_def min_def)
  ultimately show ?thesis unfolding m' by auto
qed

lemma take_agree:
  assumes "take n xs = take n ys" "m \<le> n"
  shows "take m xs = take m ys"
  by (metis assms min.absorb1 take_take)

lemma header_size_le_fixed_size: "SizeOfUndoRecordHeader a64 \<le> fixed_size cfg info"
  by (simp add: fixed_size_def SizeOfUndoRecordHeader_eq)

lemma length_record_image:
  "length (record_image cfg uur) = fixed_size cfg (uur_info uur)
     + (if has_info (uur_info uur) UREC_INFO_PAYLOAD
        then length (uur_payload uur) + length (uur_tuple uur) else 0)"
  by (simp add: record_image_split length_fixed_image)

lemma header_of_image_prefix:
  assumes "SizeOfUndoRecordHeader (uint64_align cfg) \<le> m"
  shows "fst (header_of_bytes cfg (take m (record_image cfg uur))) = work_hdr uur"
proof -
  obtain tail where img: "record_image cfg uur = header_bytes cfg (work_hdr uur) @ tail"
    by (simp add: record_image_split fixed_image_def)
  have "take m (record_image cfg uur)
      = header_bytes cfg (work_hdr uur) @ take (m - SizeOfUndoRecordHeader (uint64_align cfg)) tail"
    using assms unfolding img
    by (simp add: length_header_bytes [where ?a64.0 = "uint64_align cfg"])
  then show ?thesis by (simp add: header_of_header_bytes)
qed

lemma total_size_image_prefix:
  assumes v: "valid_record uur"
    and "fixed_size cfg (uur_info (UndoRecordSetInfo cfg uur)) \<le> m"
  shows "total_size cfg (take m (record_image cfg (UndoRecordSetInfo cfg uur)))
     = length (record_image cfg (UndoRecordSetInfo cfg uur))"
proof -
  let ?u = "UndoRecordSetInfo cfg uur"
  let ?rest = "if has_info (uur_info ?u) UREC_INFO_PAYLOAD
      then uur_payload ?u @ uur_tuple ?u else []"
  have info: "uur_info ?u = info_bits cfg uur"
    using v by (simp add: UndoRecordSetInfo_def valid_record_def)
  have f: "0 \<le> uur_fork ?u" "uur_fork ?u < 256"
    using v by (simp_all add: UndoRecordSetInfo_def valid_record_def)
  have pl: "unat (urec_payload_len (work_payload uur)) = length (uur_payload uur)"
    and tl: "unat (urec_tuple_len (work_payload uur)) = length (uur_tuple uur)"
    using v by (simp_all add: valid_record_def unat_of_nat_uint16 work_payload_def)
  have pu: "uur_payload ?u = uur_payload uur" "uur_tuple ?u = uur_tuple uur"
    by (simp_all add: UndoRecordSetInfo_def)
  have "take m (record_image cfg ?u)
      = fixed_image cfg ?u @ take (m - fixed_size cfg (uur_info ?u)) ?rest"
    using assms(2) unfolding record_image_split by (simp add: length_fixed_image)
  then have "unpack_sections cfg (take m (record_image cfg ?u))
      = (work_hdr ?u, work_rd uur, work_blk uur, work_txn uur, work_payload uur,
         take (m - fixed_size cfg (uur_info ?u)) ?rest)"
    by (simp add: unpack_sections_fixed_image [OF f] unpacked_sections_valid [OF v])
  then have "total_size cfg (take m (record_image cfg ?u))
      = fixed_size cfg (uur_info ?u) + length (uur_payload uur) + length (uur_tuple uur)"
    by (simp add: total_size_def pl tl work_hdr_def)
  also have "\<dots> = length (record_image cfg ?u)"
    unfolding length_record_image pu info by (auto simp add: has_info_bits)
  finally show ?thesis .
qed

lemma UnpackUndoRecord_result:
  assumes v: "valid_record uur"
    and k: "k \<le> length S" "k \<le> length (record_image cfg (UndoRecordSetInfo cfg uur))"
    and page: "drop starting_byte page = drop k S" "length page = PAGE_SIZE cfg"
      "starting_byte \<le> PAGE_SIZE cfg"
    and agree: "take (min (length (record_image cfg (UndoRecordSetInfo cfg uur))) (length S)) S
      = take (min (length (record_image cfg (UndoRecordSetInfo cfg uur))) (length S))
          (record_image cfg (UndoRecordSetInfo cfg uur))"
  shows "UnpackUndoRecord cfg target page starting_byte (take k S)
     = Inr (if length (record_image cfg (UndoRecordSetInfo cfg uur)) \<le> length S
            then (True, unpack_fields cfg target (record_image cfg (UndoRecordSetInfo cfg uur)),
                  record_image cfg (UndoRecordSetInfo cfg uur))
            else (False, target, S))"
proof -
  let ?u = "UndoRecordSetInfo cfg uur"
  let ?img = "record_image cfg ?u"
  let ?L = "length ?img"
  let ?hsz = "SizeOfUndoRecordHeader (uint64_align cfg)"
  let ?F = "fixed_size cfg (uur_info ?u)"
  have hF: "?hsz \<le> ?F" by (rule header_size_le_fixed_size)
  have FL: "?F \<le> ?L" by (simp add: length_record_image)
  define m1 where "m1 = min (max k ?hsz) (length S)"
  define m2 where "m2 = min (max m1 ?F) (length S)"
  define m3 where "m3 = min (max m2 ?L) (length S)"
  have m1L: "m1 \<le> ?L" "m1 \<le> length S" using k hF FL by (simp_all add: m1_def)
  have m2L: "m2 \<le> ?L" "m2 \<le> length S" using m1L FL by (simp_all add: m2_def)
  have m3L: "m3 \<le> ?L" "m3 \<le> length S" using m2L by (simp_all add: m3_def)
  have pre: "m \<le> ?L \<Longrightarrow> m \<le> length S \<Longrightarrow> take m S = take m ?img" for m
    using take_agree [OF agree, of m] by simp
  from read_bytes_take [OF k(1) page, of ?hsz]
  obtain rp1 where r1: "read_bytes cfg ?hsz page (take k S, starting_byte) = (take m1 S, rp1)"
      "drop rp1 page = drop m1 S" "rp1 \<le> PAGE_SIZE cfg"
    unfolding m1_def by blast
  show ?thesis
  proof (cases "m1 < ?hsz")
    case True
    then have sl: "length S < ?hsz" by (simp add: m1_def)
    then have "take m1 S = S" by (simp add: m1_def)
    moreover have "\<not> ?L \<le> length S" using sl hF FL by simp
    ultimately show ?thesis
      using True m1L(2) by (simp add: UnpackUndoRecord_def Let_def r1(1))
  next
    case False
    then have h1: "?hsz \<le> m1" by simp
    have w1: "take m1 S = take m1 ?img" using pre m1L by simp
    have hd: "fst (header_of_bytes cfg (take m1 S)) = work_hdr ?u"
      unfolding w1 by (rule header_of_image_prefix [OF h1])
    have ty: "\<not> undorectype_code UNDO_INVALID_XACT_SLOT < urec_type (work_hdr ?u)"
      using v by (simp add: valid_record_def work_hdr_def UndoRecordSetInfo_def not_less)
    have inf: "urec_info (work_hdr ?u) = uur_info ?u" by (simp add: work_hdr_def)
    from read_bytes_take [OF m1L(2) r1(2) page(2) r1(3), of ?F]
    obtain rp2 where r2: "read_bytes cfg ?F page (take m1 S, rp1) = (take m2 S, rp2)"
        "drop rp2 page = drop m2 S" "rp2 \<le> PAGE_SIZE cfg"
      unfolding m2_def by blast
    show ?thesis
    proof (cases "m2 < ?F")
      case True
      then have sl: "length S < ?F" by (simp add: m2_def)
      then have "take m2 S = S" by (simp add: m2_def)
      moreover have "\<not> ?L \<le> length S" using sl FL by simp
      ultimately show ?thesis
        using True False m1L(2) m2L(2) ty
        by (simp add: UnpackUndoRecord_def Let_def r1(1) hd inf r2(1))
    next
      case F2: False
      then have f2: "?F \<le> m2" by simp
      have w2: "take m2 S = take m2 ?img" using pre m2L by simp
      have ts: "total_size cfg (take m2 S) = ?L"
        unfolding w2 by (rule total_size_image_prefix [OF v f2])
      from read_bytes_take [OF m2L(2) r2(2) page(2) r2(3), of ?L]
      obtain rp3 where r3: "read_bytes cfg ?L page (take m2 S, rp2) = (take m3 S, rp3)"
        unfolding m3_def by blast
      have unf: "UnpackUndoRecord cfg target page starting_byte (take k S)
          = (if length (take m3 S) < ?L then Inr (False, target, take m3 S)
             else Inr (True, unpack_fields cfg target (take m3 S), take m3 S))"
        using False F2 m1L(2) m2L(2) ty
        by (simp add: UnpackUndoRecord_def Let_def r1(1) hd inf r2(1) ts r3)
      show ?thesis
      proof (cases "?L \<le> length S")
        case True
        then have "m3 = ?L" using m2L by (simp add: m3_def)
        moreover have "take ?L S = ?img" using pre [of ?L] True by simp
        ultimately show ?thesis using True by (simp add: unf)
      next
        case F3: False
        then have "m3 = length S" using m2L by (simp add: m3_def)
        then show ?thesis using F3 by (simp add: unf)
      qed
    qed
  qed
qed

lemma unpack_record_stream:
  assumes v: "valid_record uur"
    and "\<forall>p \<in> set pages. length p = PAGE_SIZE cfg"
    and "starting_byte \<le> PAGE_SIZE cfg"
    and "SizeOfPageHeaderData cfg \<le> PAGE_SIZE cfg"
    and "k < length (record_image cfg (UndoRecordSetInfo cfg uur))"
    and "take (length (record_image cfg (UndoRecordSetInfo cfg uur)) - k)
           (page_stream cfg starting_byte pages)
         = drop k (record_image cfg (UndoRecordSetInfo cfg uur))"
  shows "unpack_record cfg target pages starting_byte
           (take k (record_image cfg (UndoRecordSetInfo cfg uur)))
         = Inr (unpack_fields cfg target (record_image cfg (UndoRecordSetInfo cfg uur)))"
  using assms(2-)
proof (induction pages arbitrary: starting_byte k)
  case Nil
  then have "length (drop k (record_image cfg (UndoRecordSetInfo cfg uur))) = 0"
    by (metis list.size(3) page_stream.simps(1) take_Nil)
  then show ?case using Nil.prems(4) by simp
next
  case (Cons p ps)
  let ?B = "PAGE_SIZE cfg" and ?H = "SizeOfPageHeaderData cfg"
  let ?img = "record_image cfg (UndoRecordSetInfo cfg uur)"
  let ?L = "length ?img"
  let ?X = "drop starting_byte p"
  let ?rest = "page_stream cfg ?H ps"
  define S where "S = take k ?img @ ?X"
  have lp: "length p = ?B" using Cons.prems(1) by simp
  have lk: "length (take k ?img) = k" using Cons.prems(4) by simp
  have lS: "length S = k + (?B - starting_byte)" using lk lp by (simp add: S_def)
  have kS: "k \<le> length S" by (simp add: lS)
  have wk: "take k S = take k ?img" using lk by (simp add: S_def)
  have dk: "?X = drop k S" using lk by (simp add: S_def)
  have str: "take (?L - k) (?X @ ?rest) = drop k ?img" using Cons.prems(5) by simp
  define n where "n = min (?L - k) (?B - starting_byte)"
  have nle: "n \<le> ?L - k" "n \<le> length ?X" using lp by (simp_all add: n_def)
  have "take n (take (?L - k) (?X @ ?rest)) = take n (?X @ ?rest)"
    by (simp only: take_take min_absorb1 [OF nle(1)])
  also have "\<dots> = take n ?X" using nle(2) by simp
  finally have tn: "take n ?X = take n (drop k ?img)" by (simp only: str)
  have mn: "min ?L (length S) = k + n"
    using Cons.prems(4) unfolding lS n_def by (auto simp add: min_def)
  have "take (k + n) S = take k ?img @ take n ?X" using lk by (simp add: S_def)
  also have "\<dots> = take (k + n) ?img" using tn by (simp add: take_add)
  finally have agree: "take (min ?L (length S)) S = take (min ?L (length S)) ?img"
    unfolding mn .
  have kL: "k \<le> ?L" using Cons.prems(4) by simp
  have res: "UnpackUndoRecord cfg target p starting_byte (take k ?img)
      = Inr (if ?L \<le> length S then (True, unpack_fields cfg target ?img, ?img)
             else (False, target, S))"
    using UnpackUndoRecord_result [OF v kS kL dk lp Cons.prems(2) agree, of target]
    by (simp only: wk)
  show ?case
  proof (cases "?L \<le> length S")
    case True
    then show ?thesis by (simp add: res)
  next
    case False
    then have lt: "length S < ?L" by simp
    then have "min ?L (length S) = length S" by simp
    then have Simg: "S = take (length S) ?img" using agree by simp
    have Xlt: "length ?X < ?L - k" using lt lS lp by simp
    have lX: "length ?X = ?B - starting_byte" using lp by simp
    have "take (?L - k) (?X @ ?rest) = ?X @ take (?L - k - length ?X) ?rest"
      using Xlt by simp
    then have "?X @ take (?L - k - length ?X) ?rest = drop k ?img" using str by simp
    then have "take (?L - k - length ?X) ?rest = drop (length ?X) (drop k ?img)"
      by (metis append_eq_conv_conj)
    then have str': "take (?L - length S) ?rest = drop (length S) ?img"
      using lX by (simp add: lS add.commute)
    have allps: "\<forall>q \<in> set ps. length q = ?B" using Cons.prems(1) by simp
    from Cons.IH [OF allps Cons.prems(3) Cons.prems(3) lt str']
    have "unpack_record cfg target ps ?H (take (length S) ?img)
        = Inr (unpack_fields cfg target ?img)" .
    then show ?thesis using False Simg by (simp add: res)
  qed
qed

lemma expected_size_image:
  "fst (UndoRecordExpectedSize cfg uur) = length (record_image cfg (UndoRecordSetInfo cfg uur))"
  by (simp add: UndoRecordExpectedSize_def Let_def length_record_image)

lemma UndoRecordSetInfo_valid:
  "valid_record uur \<Longrightarrow> UndoRecordSetInfo cfg uur = uur\<lparr>uur_info := info_bits cfg uur\<rparr>"
  by (simp add: UndoRecordSetInfo_def valid_record_def)

lemma le_bytes_numeral:
  "le_bytes (numeral k) v = of_nat (v mod 256) # le_bytes (pred_numeral k) (v div 256)"
  by (simp only: numeral_eq_Suc le_bytes.simps)

lemma replicate_numeral_unfold:
  "replicate (numeral k) x = x # replicate (pred_numeral k) x"
  by (simp only: numeral_eq_Suc replicate.simps)

lemma le_bytes_1: "le_bytes 1 v = [of_nat (v mod 256)]"
  by simp

lemma ex_info: "info_bits example_codec example_record = 12"
  by (simp add: info_bits_def example_codec_def example_record_def urec_info_defs
      InvalidUndoRecPtr_def)

lemma ex_sections:
  "record_sections example_codec (UndoRecordSetInfo example_codec example_record)
   = [[2, 12, 40, 0, 7, 0, 0, 0, 5, 0, 0, 0, 6, 0, 0, 0, 1, 0, 0, 0],
      [0, 0, 0, 0, 0, 0, 0, 0, 2, 1, 0, 0, 0, 0, 0, 0],
      [2, 0, 1, 0], [1, 2], [3]]"
  by (simp add: record_sections_def UndoRecordSetInfo_def ex_info has_info_def urec_info_defs
      header_bytes_def transaction_bytes_def payload_bytes_def work_hdr_def work_txn_def
      work_payload_def put_field_def host_bytes_def le_bytes_numeral le_bytes_1
      transaction_padding_eq align_up_def)
    (simp add: example_codec_def example_record_def replicate_numeral_unfold)

lemma ex_cfg: "PAGE_SIZE example_codec = 32" "SizeOfPageHeaderData example_codec = 8"
  by (simp_all add: example_codec_def)

lemma ex_image:
  "record_image example_codec (UndoRecordSetInfo example_codec example_record)
   = [2, 12, 40, 0, 7, 0, 0, 0, 5, 0, 0, 0, 6, 0, 0, 0, 1, 0, 0, 0,
      0, 0, 0, 0, 0, 0, 0, 0, 2, 1, 0, 0, 0, 0, 0, 0,
      2, 0, 1, 0, 1, 2, 3]"
  by (simp add: record_image_def ex_sections)

lemma ex_step1:
  "InsertUndoRecord example_codec example_record blank_page 20 0
   = (False, UndoRecordSetInfo example_codec example_record,
      [0, 0, 0, 0, 0, 0, 0, 0, 0, 0, 0, 0, 0, 0, 0, 0, 0, 0, 0, 0,
        2, 12, 40, 0, 7, 0, 0, 0, 5, 0, 0, 0], 12)"
  by (subst InsertUndoRecord_result)
    (simp_all add: ex_image ex_cfg insert_result_def blank_page_def)

lemma ex_step2:
  "InsertUndoRecord example_codec (UndoRecordSetInfo example_codec example_record) blank_page 8 12
   = (False, UndoRecordSetInfo example_codec example_record,
      [0, 0, 0, 0, 0, 0, 0, 0, 6, 0, 0, 0, 1, 0, 0, 0,
        0, 0, 0, 0, 0, 0, 0, 0, 2, 1, 0, 0, 0, 0, 0, 0], 36)"
  by (subst InsertUndoRecord_result)
    (simp_all add: ex_image ex_cfg insert_result_def blank_page_def)

lemma ex_step3:
  "InsertUndoRecord example_codec (UndoRecordSetInfo example_codec example_record) blank_page 8 36
   = (True, UndoRecordSetInfo example_codec example_record,
      [0, 0, 0, 0, 0, 0, 0, 0, 2, 0, 1, 0, 1, 2, 3, 0,
        0, 0, 0, 0, 0, 0, 0, 0, 0, 0, 0, 0, 0, 0, 0, 0], 43)"
  by (subst InsertUndoRecord_result)
    (simp_all add: ex_image ex_cfg insert_result_def blank_page_def)

lemma ex_insert:
  "insert_record example_codec example_record [blank_page, blank_page, blank_page] 20 0
   = Inr (UndoRecordSetInfo example_codec example_record,
      [[0, 0, 0, 0, 0, 0, 0, 0, 0, 0, 0, 0, 0, 0, 0, 0, 0, 0, 0, 0,
        2, 12, 40, 0, 7, 0, 0, 0, 5, 0, 0, 0],
       [0, 0, 0, 0, 0, 0, 0, 0, 6, 0, 0, 0, 1, 0, 0, 0,
        0, 0, 0, 0, 0, 0, 0, 0, 2, 1, 0, 0, 0, 0, 0, 0],
       [0, 0, 0, 0, 0, 0, 0, 0, 2, 0, 1, 0, 1, 2, 3, 0,
        0, 0, 0, 0, 0, 0, 0, 0, 0, 0, 0, 0, 0, 0, 0, 0]])"
  by (simp add: ex_step1 ex_step2 ex_step3 ex_cfg)

lemma ex_valid: "valid_record example_record"
  by (simp add: valid_record_def example_record_def)

lemma ex_size: "fst (UndoRecordExpectedSize example_codec example_record) = 43"
  by (simp add: expected_size_image ex_image)

lemma ex_pages_ok:
  "\<forall>p \<in> set [blank_page, blank_page, blank_page]. length p = PAGE_SIZE example_codec"
  "[blank_page, blank_page, blank_page] \<noteq> []"
  "20 \<le> PAGE_SIZE example_codec"
  "SizeOfPageHeaderData example_codec < PAGE_SIZE example_codec"
  "fst (UndoRecordExpectedSize example_codec example_record)
     \<le> (PAGE_SIZE example_codec - 20)
       + (length [blank_page, blank_page, blank_page] - 1)
         * (PAGE_SIZE example_codec - SizeOfPageHeaderData example_codec)"
  by (simp_all add: ex_cfg ex_size blank_page_def)

text \<open>
  Claim C3 (order of the sections). When a record is inserted into a sequence of pages
  that has room for it, the bytes that the chain of \<open>InsertUndoRecord\<close> calls leaves in
  the pages are, from the starting byte on and with only the page headers in between,
  the Header, then RelationDetails, Block, Transaction and Payload sizes where their flag
  is set, then the payload bytes and the tuple bytes; the sections have 20, 5, 14,
  \<open>SizeOfUndoRecordTransaction\<close> and 4 bytes, and the length of the record is the sum of the
  lengths of its sections, so nothing lies between two sections.
\<close>

theorem section_order:
  assumes "\<forall>p \<in> set pages. length p = PAGE_SIZE cfg"
    and "pages \<noteq> []"
    and "starting_byte \<le> PAGE_SIZE cfg"
    and "SizeOfPageHeaderData cfg < PAGE_SIZE cfg"
    and "fst (UndoRecordExpectedSize cfg uur)
         \<le> (PAGE_SIZE cfg - starting_byte)
           + (length pages - 1) * (PAGE_SIZE cfg - SizeOfPageHeaderData cfg)"
    and "uur' = UndoRecordSetInfo cfg uur"
  shows "\<exists>pages'. insert_record cfg uur pages starting_byte 0 = Inr (uur', pages')
     \<and> take (fst (UndoRecordExpectedSize cfg uur)) (page_stream cfg starting_byte pages')
       = header_bytes cfg (work_hdr uur')
         @ (if has_info (uur_info uur') UREC_INFO_RELATION_DETAILS
            then relation_details_bytes cfg (work_rd uur') else [])
         @ (if has_info (uur_info uur') UREC_INFO_BLOCK
            then block_bytes cfg (work_blk uur') else [])
         @ (if has_info (uur_info uur') UREC_INFO_TRANSACTION
            then transaction_bytes cfg (work_txn uur') else [])
         @ (if has_info (uur_info uur') UREC_INFO_PAYLOAD
            then payload_bytes cfg (work_payload uur') else [])
         @ (if has_info (uur_info uur') UREC_INFO_PAYLOAD then uur_payload uur' else [])
         @ (if has_info (uur_info uur') UREC_INFO_PAYLOAD then uur_tuple uur' else [])
     \<and> length (header_bytes cfg (work_hdr uur')) = 20
     \<and> length (relation_details_bytes cfg (work_rd uur')) = 5
     \<and> length (block_bytes cfg (work_blk uur')) = 14
     \<and> length (transaction_bytes cfg (work_txn uur'))
         = SizeOfUndoRecordTransaction (uint64_align cfg)
     \<and> length (payload_bytes cfg (work_payload uur')) = 4
     \<and> fst (UndoRecordExpectedSize cfg uur)
         = 20
           + (if has_info (uur_info uur') UREC_INFO_RELATION_DETAILS then 5 else 0)
           + (if has_info (uur_info uur') UREC_INFO_BLOCK then 14 else 0)
           + (if has_info (uur_info uur') UREC_INFO_TRANSACTION
              then SizeOfUndoRecordTransaction (uint64_align cfg) else 0)
           + (if has_info (uur_info uur') UREC_INFO_PAYLOAD then 4 else 0)
           + (if has_info (uur_info uur') UREC_INFO_PAYLOAD then length (uur_payload uur') else 0)
           + (if has_info (uur_info uur') UREC_INFO_PAYLOAD then length (uur_tuple uur') else 0)"
proof -
  let ?img = "record_image cfg (UndoRecordSetInfo cfg uur)"
  have cap: "length ?img - 0 \<le> (PAGE_SIZE cfg - starting_byte)
      + (length pages - 1) * (PAGE_SIZE cfg - SizeOfPageHeaderData cfg)"
    using assms(5) by (simp add: expected_size_image)
  from insert_record_stream [OF assms(1,3,4) _ assms(2) cap]
  obtain pages' where ins: "insert_record cfg uur pages starting_byte 0 = Inr (uur', pages')"
    and str: "take (length ?img) (page_stream cfg starting_byte pages') = ?img"
    using assms(6) by auto
  have img: "?img = header_bytes cfg (work_hdr uur')
         @ (if has_info (uur_info uur') UREC_INFO_RELATION_DETAILS
            then relation_details_bytes cfg (work_rd uur') else [])
         @ (if has_info (uur_info uur') UREC_INFO_BLOCK
            then block_bytes cfg (work_blk uur') else [])
         @ (if has_info (uur_info uur') UREC_INFO_TRANSACTION
            then transaction_bytes cfg (work_txn uur') else [])
         @ (if has_info (uur_info uur') UREC_INFO_PAYLOAD
            then payload_bytes cfg (work_payload uur') else [])
         @ (if has_info (uur_info uur') UREC_INFO_PAYLOAD then uur_payload uur' else [])
         @ (if has_info (uur_info uur') UREC_INFO_PAYLOAD then uur_tuple uur' else [])"
    by (simp add: record_image_def record_sections_def assms(6))
  have sz: "fst (UndoRecordExpectedSize cfg uur)
         = 20
           + (if has_info (uur_info uur') UREC_INFO_RELATION_DETAILS then 5 else 0)
           + (if has_info (uur_info uur') UREC_INFO_BLOCK then 14 else 0)
           + (if has_info (uur_info uur') UREC_INFO_TRANSACTION
              then SizeOfUndoRecordTransaction (uint64_align cfg) else 0)
           + (if has_info (uur_info uur') UREC_INFO_PAYLOAD then 4 else 0)
           + (if has_info (uur_info uur') UREC_INFO_PAYLOAD then length (uur_payload uur') else 0)
           + (if has_info (uur_info uur') UREC_INFO_PAYLOAD then length (uur_tuple uur') else 0)"
    by (simp add: UndoRecordExpectedSize_def Let_def fixed_size_def assms(6)
        SizeOfUndoRecordHeader_eq SizeOfUndoRecordRelationDetails_eq SizeOfUndoRecordBlock_eq
        SizeOfUndoRecordPayload_eq)
  have l1: "length (header_bytes cfg (work_hdr uur')) = 20"
    by (simp add: length_header_bytes [where ?a64.0 = 8] SizeOfUndoRecordHeader_eq)
  have l2: "length (relation_details_bytes cfg (work_rd uur')) = 5"
    by (simp add: length_relation_details_bytes [where ?a64.0 = 8]
        SizeOfUndoRecordRelationDetails_eq)
  have l3: "length (block_bytes cfg (work_blk uur')) = 14"
    by (simp add: length_block_bytes [where ?a64.0 = 8] SizeOfUndoRecordBlock_eq)
  have l5: "length (payload_bytes cfg (work_payload uur')) = 4"
    by (simp add: length_payload_bytes [where ?a64.0 = 8] SizeOfUndoRecordPayload_eq)
  have "take (fst (UndoRecordExpectedSize cfg uur)) (page_stream cfg starting_byte pages') = ?img"
    using str by (simp add: expected_size_image)
  then show ?thesis
    unfolding img using ins sz l1 l2 l3 l5 length_transaction_bytes by blast
qed

theorem section_order_witness:
  "fst (UndoRecordExpectedSize example_codec example_record) = 43
   \<and> insert_record example_codec example_record [blank_page, blank_page, blank_page] 20 0
       = Inr (UndoRecordSetInfo example_codec example_record, example_pages)
   \<and> take 43 (page_stream example_codec 20 example_pages)
       = [2, 12, 40, 0, 7, 0, 0, 0, 5, 0, 0, 0, 6, 0, 0, 0, 1, 0, 0, 0]
         @ [0, 0, 0, 0, 0, 0, 0, 0, 2, 1, 0, 0, 0, 0, 0, 0]
         @ [2, 0, 1, 0] @ [1, 2] @ [3]
   \<and> SizeOfUndoRecordTransaction (uint64_align example_codec) = 16"
proof -
  let ?u = "UndoRecordSetInfo example_codec example_record"
  from section_order [OF ex_pages_ok refl]
  obtain pages' where
    i: "insert_record example_codec example_record [blank_page, blank_page, blank_page] 20 0
        = Inr (?u, pages')"
    and s: "take (fst (UndoRecordExpectedSize example_codec example_record))
          (page_stream example_codec 20 pages')
        = header_bytes example_codec (work_hdr ?u)
         @ (if has_info (uur_info ?u) UREC_INFO_RELATION_DETAILS
            then relation_details_bytes example_codec (work_rd ?u) else [])
         @ (if has_info (uur_info ?u) UREC_INFO_BLOCK
            then block_bytes example_codec (work_blk ?u) else [])
         @ (if has_info (uur_info ?u) UREC_INFO_TRANSACTION
            then transaction_bytes example_codec (work_txn ?u) else [])
         @ (if has_info (uur_info ?u) UREC_INFO_PAYLOAD
            then payload_bytes example_codec (work_payload ?u) else [])
         @ (if has_info (uur_info ?u) UREC_INFO_PAYLOAD then uur_payload ?u else [])
         @ (if has_info (uur_info ?u) UREC_INFO_PAYLOAD then uur_tuple ?u else [])"
    by blast
  have p: "pages' = example_pages" using i [unfolded ex_insert] by (simp add: example_pages_def)
  have img: "header_bytes example_codec (work_hdr ?u)
         @ (if has_info (uur_info ?u) UREC_INFO_RELATION_DETAILS
            then relation_details_bytes example_codec (work_rd ?u) else [])
         @ (if has_info (uur_info ?u) UREC_INFO_BLOCK
            then block_bytes example_codec (work_blk ?u) else [])
         @ (if has_info (uur_info ?u) UREC_INFO_TRANSACTION
            then transaction_bytes example_codec (work_txn ?u) else [])
         @ (if has_info (uur_info ?u) UREC_INFO_PAYLOAD
            then payload_bytes example_codec (work_payload ?u) else [])
         @ (if has_info (uur_info ?u) UREC_INFO_PAYLOAD then uur_payload ?u else [])
         @ (if has_info (uur_info ?u) UREC_INFO_PAYLOAD then uur_tuple ?u else [])
       = record_image example_codec ?u"
    by (simp add: record_image_def record_sections_def)
  have a: "SizeOfUndoRecordTransaction (uint64_align example_codec) = 16"
    by (simp add: example_codec_def SizeOfUndoRecordTransaction_eq align_up_def)
  show ?thesis
    using i s a unfolding p img by (simp add: ex_size ex_image)
qed

text \<open>
  Claim C1 (round trip). For every valid unpacked record \<open>uur\<close> (\<^verbatim>\<open>uur_info\<close> is 0), inserting
  it with repeated \<open>InsertUndoRecord\<close> calls into a sequence of pages that has room for it
  succeeds, and decoding those pages with repeated \<open>UnpackUndoRecord\<close> calls yields \<open>uur\<close>
  again, payload and tuple bytes included, with \<^verbatim>\<open>uur_info\<close> set to the flag bits implied by
  the fields that are not at their default value. \<^verbatim>\<open>uur_buffer\<close>, the buffer handle of the
  decoding side that is not serialized, is that of the record the decoder was given.
\<close>

theorem round_trip:
  assumes "valid_record uur"
    and "\<forall>p \<in> set pages. length p = PAGE_SIZE cfg"
    and "pages \<noteq> []"
    and "starting_byte \<le> PAGE_SIZE cfg"
    and "SizeOfPageHeaderData cfg < PAGE_SIZE cfg"
    and "fst (UndoRecordExpectedSize cfg uur)
         \<le> (PAGE_SIZE cfg - starting_byte)
           + (length pages - 1) * (PAGE_SIZE cfg - SizeOfPageHeaderData cfg)"
  shows "\<exists>pages'. insert_record cfg uur pages starting_byte 0
            = Inr (uur\<lparr>uur_info := info_bits cfg uur\<rparr>, pages')
         \<and> unpack_record cfg target pages' starting_byte []
            = Inr (uur\<lparr>uur_info := info_bits cfg uur, uur_buffer := uur_buffer target\<rparr>)"
proof -
  let ?u = "UndoRecordSetInfo cfg uur"
  let ?img = "record_image cfg ?u"
  have cap: "length ?img - 0 \<le> (PAGE_SIZE cfg - starting_byte)
      + (length pages - 1) * (PAGE_SIZE cfg - SizeOfPageHeaderData cfg)"
    using assms(6) by (simp add: expected_size_image)
  from insert_record_stream [OF assms(2,4,5) _ assms(3) cap]
  obtain pages' where ins: "insert_record cfg uur pages starting_byte 0 = Inr (?u, pages')"
    and lens: "\<forall>p \<in> set pages'. length p = PAGE_SIZE cfg"
    and str: "take (length ?img - 0) (page_stream cfg starting_byte pages') = drop 0 ?img"
    by auto
  have pos: "0 < length ?img"
    by (simp add: length_record_image fixed_size_def SizeOfUndoRecordHeader_eq)
  have hB: "SizeOfPageHeaderData cfg \<le> PAGE_SIZE cfg" using assms(5) by simp
  from unpack_record_stream [OF assms(1) lens assms(4) hB pos str, of target]
  have "unpack_record cfg target pages' starting_byte []
      = Inr (unpack_fields cfg target ?img)" by simp
  then have "unpack_record cfg target pages' starting_byte []
      = Inr (?u\<lparr>uur_buffer := uur_buffer target\<rparr>)"
    by (simp add: unpack_fields_record_image [OF assms(1)])
  then show ?thesis using ins by (auto simp add: UndoRecordSetInfo_valid [OF assms(1)])
qed

theorem round_trip_witness:
  "valid_record example_record
   \<and> insert_record example_codec example_record [blank_page, blank_page, blank_page] 20 0
       = Inr (example_record\<lparr>uur_info := 12\<rparr>, example_pages)
   \<and> unpack_record example_codec example_target example_pages 20 []
       = Inr (example_record\<lparr>uur_info := 12, uur_buffer := 0\<rparr>)"
proof -
  from round_trip [OF ex_valid ex_pages_ok, of example_target]
  obtain pages' where
    i: "insert_record example_codec example_record [blank_page, blank_page, blank_page] 20 0
        = Inr (example_record\<lparr>uur_info := info_bits example_codec example_record\<rparr>, pages')"
    and u: "unpack_record example_codec example_target pages' 20 []
        = Inr (example_record\<lparr>uur_info := info_bits example_codec example_record,
                 uur_buffer := uur_buffer example_target\<rparr>)"
    by blast
  have "pages' = example_pages" using i [unfolded ex_insert] by (simp add: example_pages_def)
  then show ?thesis using i u ex_valid by (simp add: ex_info example_target_def)
qed

end
